theory Spec2Isabelle
  imports Complex_Main "HOL-Library.AList" "HOL-Library.Char_ord" "HOL-Library.List_Lexorder"
    "HOL-Library.Log_Nat" "HOL-Library.Product_Lexorder"
begin

section \<open>Values, errors and data frames\<close>

text \<open>
  A cell of the dataset is null (Python's \<open>None\<close>, pandas' \<open>NaN\<close>), a boolean or a text.
  These are the cells the analytics functions of \<open>streamlit_app.py\<close> tell apart: only
  null-ness is read from the event column, the assignment labels are compared with the
  texts \<open>"A"\<close> and \<open>"B"\<close>, and the derived \<open>converted\<close> column is boolean.
\<close>

datatype val = Null | Bool bool | Str string

text \<open>
  A numpy \<open>float64\<close> scalar: a finite value, kept as a rational, or one of the three
  special values, which dividing by zero yields (with a warning) instead of raising.
\<close>

datatype f64 = Fin rat | PosInf | NegInf | NaN

text \<open>
  Rounding to \<open>float64\<close>: the nearest number with a significand of 53 bits, ties to the
  even significand. \<open>float_exponent x\<close> is the exponent of the leading bit of a positive
  \<open>x\<close>. Overflow and subnormal numbers are left out; they are out of reach of the
  quotients of counts and of the grid rounded below. The conversion rates and the lift are
  kept as the exact quotients.
\<close>

definition round_half_even :: "rat \<Rightarrow> int" where
  "round_half_even y =
     (let f = \<lfloor>y\<rfloor>; d = y - of_int f
      in if d < 1 / 2 then f else if 1 / 2 < d then f + 1 else if even f then f else f + 1)"

definition float_exponent :: "rat \<Rightarrow> int" where
  "float_exponent x =
     (if 1 \<le> x then bitlen \<lfloor>x\<rfloor> - 1 else - bitlen (\<lceil>1 / x\<rceil> - 1))"

definition round53 :: "rat \<Rightarrow> rat" where
  "round53 x =
     (if x = 0 then 0
      else let s = 2 powi (float_exponent \<bar>x\<bar> - 52)
           in sgn x * of_int (round_half_even (\<bar>x\<bar> / s)) * s)"

fun f_round :: "f64 \<Rightarrow> f64" where
  "f_round (Fin x) = Fin (round53 x)"
| "f_round x = x"

text \<open>Cells of the aggregated table: a group label, an integer count, or a float.\<close>

datatype cell = Label val | Count nat | Rate f64

datatype py_error = KeyError | ValueError | TypeError | IndexError

text \<open>
  A \<open>DataFrame\<close>: the length of its index and its columns in order, each a name with its
  cells.
\<close>

record 'c frame =
  nrows :: nat
  cols :: "(string \<times> 'c list) list"

text \<open>
  Every frame pandas builds has distinct column names here (the dataset comes from a list
  of dictionaries) and columns as long as its index.
\<close>

definition wf_frame :: "'c frame \<Rightarrow> bool" where
  "wf_frame df = (distinct (map fst (cols df)) \<and> list_all (\<lambda>c. length (snd c) = nrows df) (cols df))"

definition columns :: "'c frame \<Rightarrow> string list" where
  "columns df = map fst (cols df)"

text \<open>\<open>df.empty\<close>: one of the two axes has length 0.\<close>

definition df_empty :: "'c frame \<Rightarrow> bool" where
  "df_empty df = (nrows df = 0 \<or> cols df = [])"

text \<open>\<open>df[c]\<close> raises \<open>KeyError\<close> for a name that is not a column.\<close>

definition getitem :: "'c frame \<Rightarrow> string \<Rightarrow> py_error + 'c list" where
  "getitem df c = (case map_of (cols df) c of None \<Rightarrow> Inl KeyError | Some xs \<Rightarrow> Inr xs)"

text \<open>
  \<open>df[c] = series\<close>: replaces the column \<open>c\<close> where it stands, or appends it as the last
  column. The series assigned below always comes from the frame itself, so it has the
  frame's index.
\<close>

definition setitem :: "'c frame \<Rightarrow> string \<Rightarrow> 'c list \<Rightarrow> 'c frame" where
  "setitem df c xs = df\<lparr>cols := AList.update c xs (cols df)\<rparr>"

text \<open>
  \<open>df[sel]\<close> with a boolean series \<open>sel\<close> (as on lines 43 and 96): the rows at which
  \<open>sel\<close> is true, in every column.
\<close>

definition masked :: "bool list \<Rightarrow> 'a list \<Rightarrow> 'a list" where
  "masked sel xs = map snd (filter fst (zip sel xs))"

definition select_rows :: "bool list \<Rightarrow> 'c frame \<Rightarrow> 'c frame" where
  "select_rows sel df =
     \<lparr>nrows = length (filter id sel), cols = map (\<lambda>c. (fst c, masked sel (snd c))) (cols df)\<rparr>"

text \<open>
  A call either raises (\<open>Inl\<close> of the exception) or returns; \<open>ebind\<close> runs the rest of the
  function on the value returned and passes an exception on, \<open>emap\<close> does so along a list.
\<close>

fun ebind :: "'e + 'a \<Rightarrow> ('a \<Rightarrow> 'e + 'b) \<Rightarrow> 'e + 'b" where
  "ebind (Inl e) f = Inl e"
| "ebind (Inr x) f = f x"

fun emap :: "('a \<Rightarrow> 'e + 'b) \<Rightarrow> 'a list \<Rightarrow> 'e + 'b list" where
  "emap f [] = Inr []"
| "emap f (x # xs) = ebind (f x) (\<lambda>y. ebind (emap f xs) (\<lambda>ys. Inr (y # ys)))"

text \<open>\<open>series.isnull()\<close>, and \<open>~\<close> on a boolean series.\<close>

definition isnull :: "val list \<Rightarrow> bool list" where
  "isnull xs = map (\<lambda>v. v = Null) xs"

definition invert :: "bool list \<Rightarrow> bool list" where
  "invert bs = map Not bs"

text \<open>\<open>Series.unique()\<close>: the distinct cells in order of first appearance, null included.\<close>

definition unique :: "'a list \<Rightarrow> 'a list" where
  "unique xs = rev (remdups (rev xs))"

text \<open>
  The order in which pandas sorts group keys: booleans (\<open>False\<close> before \<open>True\<close>) before
  texts, texts in the order of their characters' codes. Null is never a key.
\<close>

fun rank :: "val \<Rightarrow> nat \<times> string" where
  "rank (Bool False) = (0, [])"
| "rank (Bool True) = (1, [])"
| "rank (Str s) = (2, s)"
| "rank Null = (3, [])"

text \<open>
  The keys of \<open>df.groupby(col)\<close> with its defaults \<open>sort=True\<close> and \<open>dropna=True\<close>: the
  distinct non-null cells, in ascending order.
\<close>

definition group_keys :: "val list \<Rightarrow> val list" where
  "group_keys ks = sort_key rank (unique (filter (\<lambda>k. k \<noteq> Null) ks))"

text \<open>The cells of \<open>vs\<close> in the rows whose key is \<open>k\<close>.\<close>

definition group_of :: "'k list \<Rightarrow> 'v list \<Rightarrow> 'k \<Rightarrow> 'v list" where
  "group_of ks vs k = map snd (filter (\<lambda>p. fst p = k) (zip ks vs))"

text \<open>
  \<open>df.groupby(col)["converted"].agg(["count", "sum"])\<close> on the boolean series stored
  on line 34: per key, the number of rows (no flag is null) and the number of true flags.
  The result is indexed by the keys and has the columns \<open>count\<close> and \<open>sum\<close>.
\<close>

definition agg_count_sum :: "val list \<Rightarrow> bool list \<Rightarrow> val list \<times> (string \<times> cell list) list" where
  "agg_count_sum ks flags =
     (let idx = group_keys ks in
      (idx,
       [(''count'', map (\<lambda>k. Count (length (group_of ks flags k))) idx),
        (''sum'', map (\<lambda>k. Count (length (filter id (group_of ks flags k)))) idx)]))"

text \<open>
  \<open>reset_index()\<close> inserts the index as the first column, under the index's name, and
  raises \<open>ValueError\<close> (cannot insert, already exists) when a column has that name.
\<close>

definition reset_index :: "string \<Rightarrow> val list \<times> (string \<times> cell list) list \<Rightarrow> py_error + cell frame" where
  "reset_index name agg =
     (if name \<in> set (map fst (snd agg)) then Inl ValueError
      else Inr \<lparr>nrows = length (fst agg), cols = (name, map Label (fst agg)) # snd agg\<rparr>)"

text \<open>Division of two \<open>float64\<close> values; signed zeros are not told apart.\<close>

fun f_div :: "f64 \<Rightarrow> f64 \<Rightarrow> f64" where
  "f_div (Fin a) (Fin b) =
     (if b \<noteq> 0 then Fin (a / b) else if a = 0 then NaN else if 0 < a then PosInf else NegInf)"
| "f_div NaN y = NaN"
| "f_div x NaN = NaN"
| "f_div (Fin a) y = Fin 0"
| "f_div PosInf (Fin b) = (if 0 \<le> b then PosInf else NegInf)"
| "f_div NegInf (Fin b) = (if 0 \<le> b then NegInf else PosInf)"
| "f_div PosInf PosInf = NaN"
| "f_div PosInf NegInf = NaN"
| "f_div NegInf PosInf = NaN"
| "f_div NegInf NegInf = NaN"

fun f_sub :: "f64 \<Rightarrow> f64 \<Rightarrow> f64" where
  "f_sub (Fin a) (Fin b) = Fin (a - b)"
| "f_sub NaN y = NaN"
| "f_sub x NaN = NaN"
| "f_sub PosInf PosInf = NaN"
| "f_sub NegInf NegInf = NaN"
| "f_sub PosInf y = PosInf"
| "f_sub NegInf y = NegInf"
| "f_sub (Fin a) PosInf = NegInf"
| "f_sub (Fin a) NegInf = PosInf"

text \<open>A cell as the operand of float arithmetic.\<close>

fun cell_float :: "cell \<Rightarrow> py_error + f64" where
  "cell_float (Count n) = Inr (Fin (of_nat n))"
| "cell_float (Rate x) = Inr x"
| "cell_float (Label (Bool b)) = Inr (Fin (if b then 1 else 0))"
| "cell_float (Label v) = Inl TypeError"

text \<open>\<open>s1 / s2\<close> on two series of one index: true division, cell by cell.\<close>

definition series_div :: "cell list \<Rightarrow> cell list \<Rightarrow> py_error + cell list" where
  "series_div xs ys =
     emap (\<lambda>p. ebind (cell_float (fst p)) (\<lambda>x. ebind (cell_float (snd p)) (\<lambda>y. Inr (Rate (f_div x y)))))
       (zip xs ys)"

text \<open>
  \<open>t[t[key] == label][c].iloc[0]\<close>: the cell of column \<open>c\<close> in the first row whose \<open>key\<close>
  cell equals the label; \<open>iloc[0]\<close> raises \<open>IndexError\<close> when no row is selected.
\<close>

definition first_where :: "cell frame \<Rightarrow> string \<Rightarrow> cell \<Rightarrow> string \<Rightarrow> py_error + cell" where
  "first_where t key label c =
     ebind (getitem t key) (\<lambda>ks. ebind (getitem t c) (\<lambda>xs.
       case group_of ks xs label of [] \<Rightarrow> Inl IndexError | x # _ \<Rightarrow> Inr x))"

section \<open>The conversion analyzer\<close>

text \<open>
  \<open>calculate_conversion_rates\<close> (lines 31 to 51). The frame is mutated in place, so the
  model returns it next to the function's result: an error raised, or the pair of the
  table of conversion records and the lift, each of which may be \<open>None\<close>.
\<close>

definition lift_of :: "cell frame \<Rightarrow> string \<Rightarrow> py_error + f64 option" where
  "lift_of t assignment_col =
     ebind (getitem t assignment_col) (\<lambda>ks.
       if length (unique ks) = 2 then
         if Label (Str ''A'') \<in> set (unique ks) \<and> Label (Str ''B'') \<in> set (unique ks) then
           ebind (first_where t assignment_col (Label (Str ''A'')) ''conversion_rate'') (\<lambda>ca.
           ebind (first_where t assignment_col (Label (Str ''B'')) ''conversion_rate'') (\<lambda>cb.
           ebind (cell_float ca) (\<lambda>variant_a_rate.
           ebind (cell_float cb) (\<lambda>variant_b_rate.
             Inr (Some (f_div (f_sub variant_b_rate variant_a_rate) variant_a_rate))))))
         else Inr None
       else Inr None)"

definition conversion_table :: "val frame \<Rightarrow> string \<Rightarrow> bool list \<Rightarrow> py_error + cell frame" where
  "conversion_table df assignment_col converted =
     ebind (getitem df assignment_col) (\<lambda>ks.
     ebind (reset_index assignment_col (agg_count_sum ks converted)) (\<lambda>t.
     ebind (getitem t ''sum'') (\<lambda>s.
     ebind (getitem t ''count'') (\<lambda>c.
     ebind (series_div s c) (\<lambda>r.
       Inr (setitem t ''conversion_rate'' r))))))"

definition calculate_conversion_rates ::
  "val frame \<Rightarrow> string \<Rightarrow> string \<Rightarrow> string \<Rightarrow> val frame \<times> (py_error + (cell frame option \<times> f64 option))" where
  "calculate_conversion_rates df event1_col event2_col assignment_col =
     (if df_empty df \<or> event1_col \<notin> set (columns df) \<or> event2_col \<notin> set (columns df)
         \<or> assignment_col \<notin> set (columns df)
      then (df, Inr (None, None))
      else
        case getitem df event2_col of
          Inl e \<Rightarrow> (df, Inl e)
        | Inr ev2 \<Rightarrow>
            let converted = invert (isnull ev2);
                df' = setitem df ''converted'' (map Bool converted)
            in (df',
                ebind (conversion_table df' assignment_col converted) (\<lambda>conversion_rates.
                ebind (lift_of conversion_rates assignment_col) (\<lambda>lift_drop.
                  Inr (Some conversion_rates, lift_drop)))))"

section \<open>The significance tester\<close>

text \<open>
  \<open>pd.crosstab(rows, cols)\<close>: the rows in which both cells are non-null are counted per
  pair; the table's row and column labels are the cells that occur there, sorted.
\<close>

definition crosstab :: "val list \<Rightarrow> val list \<Rightarrow> val list \<times> val list \<times> nat list list" where
  "crosstab xs ys =
     (let ps = filter (\<lambda>p. fst p \<noteq> Null \<and> snd p \<noteq> Null) (zip xs ys);
          rs = group_keys (map fst ps);
          cs = group_keys (map snd ps)
      in (rs, cs, map (\<lambda>r. map (\<lambda>c. count_list ps (r, c)) cs) rs))"

text \<open>
  The expected frequencies under independence, as scipy computes them in \<open>float64\<close> from
  the margins: row total times column total (an integer, exact below \<open>2^53\<close>), divided by
  the grand total.
\<close>

definition expected_freq :: "nat list list \<Rightarrow> f64 list list" where
  "expected_freq obs =
     (let row_tot = map sum_list obs;
          col_tot = map (\<lambda>j. sum_list (map (\<lambda>r. r ! j) obs)) [0..<length (hd obs)];
          total = sum_list row_tot
      in map (\<lambda>r. map (\<lambda>c. f_round (f_div (Fin (of_nat (r * c))) (Fin (of_nat total)))) col_tot)
           row_tot)"

text \<open>
  \<open>scipy.stats.chi2_contingency\<close> on a two-dimensional table of counts. It raises
  \<open>ValueError\<close> for a table of size 0 and for a zero among the expected frequencies. The
  degrees of freedom are \<open>size - (rows + columns) + 2 - 1\<close>. The statistic and the
  p-value are the library's floating-point results for the table: \<open>chi2_p\<close> stands for
  that computation.
\<close>

definition chi2_contingency ::
  "(nat list list \<Rightarrow> f64 \<times> f64) \<Rightarrow> nat list list \<Rightarrow> py_error + (f64 \<times> f64 \<times> int \<times> f64 list list)" where
  "chi2_contingency chi2_p obs =
     (if sum_list (map length obs) = 0 then Inl ValueError
      else
        let expected = expected_freq obs in
        if list_ex (list_ex (\<lambda>e. e = Fin 0)) expected then Inl ValueError
        else
          let n_rows = int (length obs); n_cols = int (length (hd obs));
              dof = n_rows * n_cols - (n_rows + n_cols) + 2 - 1
          in Inr (fst (chi2_p obs), snd (chi2_p obs), dof, expected))"

text \<open>\<open>perform_chi_squared_test\<close> (lines 77 to 82); \<open>None\<close> for the frame is \<open>df is None\<close>.\<close>

definition perform_chi_squared_test ::
  "(nat list list \<Rightarrow> f64 \<times> f64) \<Rightarrow> val frame option \<Rightarrow> string
     \<Rightarrow> py_error + (f64 \<times> f64 \<times> int \<times> f64 list list) option" where
  "perform_chi_squared_test chi2_p df assignment_col =
     (case df of
        None \<Rightarrow> Inr None
      | Some d \<Rightarrow>
          if assignment_col \<notin> set (columns d) \<or> ''converted'' \<notin> set (columns d) then Inr None
          else
            ebind (getitem d assignment_col) (\<lambda>ks.
            ebind (getitem d ''converted'') (\<lambda>cv.
              let contingency_table = snd (snd (crosstab ks cv)) in
              ebind (chi2_contingency chi2_p contingency_table) (\<lambda>r. Inr (Some r)))))"

section \<open>The posterior estimator\<close>

text \<open>
  \<open>np.linspace(start, stop, num)\<close> for \<open>num\<close> of at least 2, in \<open>float64\<close>: the step is
  the rounded quotient of \<open>stop - start\<close> by \<open>num - 1\<close>, point \<open>i\<close> is \<open>i * step + start\<close>
  with both operations rounded (\<open>i / (num - 1) * delta + start\<close> when the step rounds to 0),
  and the last point is set to \<open>stop\<close>.
\<close>

definition linspace :: "rat \<Rightarrow> rat \<Rightarrow> nat \<Rightarrow> rat list" where
  "linspace start stop num =
     (let d = of_nat (num - 1);
          delta = round53 (stop - start);
          step = round53 (delta / d)
      in map (\<lambda>i. round53 ((if step = 0 then round53 (round53 (of_nat i / d) * delta)
                             else round53 (of_nat i * step)) + start))
           [0..<num - 1] @ [stop])"

text \<open>One plotted curve: its variant, the two Beta parameters, and the points drawn.\<close>

record curve =
  variant :: val
  param_a :: int
  param_b :: int
  grid :: "rat list"
  density :: "f64 list"

fun is_text :: "val \<Rightarrow> bool" where
  "is_text (Str s) = True"
| "is_text v = False"

text \<open>
  Lines 97 to 102 for the \<open>converted\<close> cells of one variant. \<open>sum()\<close> skips nulls and
  counts a true flag as 1. With a text among the cells the sum is a text or fails, and
  \<open>len(variant_data) - successes\<close> raises \<open>TypeError\<close> in either case.
\<close>

definition beta_params :: "val list \<Rightarrow> py_error + int \<times> int" where
  "beta_params variant_data =
     (if list_ex is_text variant_data then Inl TypeError
      else
        let successes = int (length (filter (\<lambda>v. v = Bool True) variant_data));
            failures = int (length variant_data) - successes
        in Inr (successes + 1, failures + 1))"

text \<open>
  \<open>create_posterior_distribution_chart\<close> (lines 84 to 111). The figure is modelled by
  the curves plotted on it, in plotting order; \<open>pdf\<close> stands for \<open>scipy.stats.beta.pdf\<close>.
\<close>

definition create_posterior_distribution_chart ::
  "(rat \<Rightarrow> int \<Rightarrow> int \<Rightarrow> f64) \<Rightarrow> val frame option \<Rightarrow> string \<Rightarrow> py_error + curve list option" where
  "create_posterior_distribution_chart pdf df assignment_col =
     (case df of
        None \<Rightarrow> Inr None
      | Some d \<Rightarrow>
          if assignment_col \<notin> set (columns d) \<or> ''converted'' \<notin> set (columns d) then Inr None
          else
            ebind (getitem d assignment_col) (\<lambda>ks.
            ebind (getitem d ''converted'') (\<lambda>cv.
              let variants = unique ks in
              if length variants \<noteq> 2 \<or> Str ''A'' \<notin> set variants \<or> Str ''B'' \<notin> set variants
              then Inr None
              else
                let x = linspace 0 1 1000 in
                ebind (emap (\<lambda>v.
                         ebind (beta_params (group_of ks cv v)) (\<lambda>ab.
                           Inr \<lparr>variant = v, param_a = fst ab, param_b = snd ab, grid = x,
                                density = map (\<lambda>t. pdf t (fst ab) (snd ab)) x\<rparr>))
                       variants)
                  (\<lambda>fig. Inr (Some fig)))))"

section \<open>Example datasets\<close>

definition no_rows :: "val frame" where
  "no_rows = \<lparr>nrows = 0, cols = []\<rparr>"

text \<open>
  Four rows, two per variant, one conversion in each, and the table of conversion
  records computed for it.
\<close>

definition ab_frame :: "val frame" where
  "ab_frame = \<lparr>nrows = 4, cols =
     [(''assignment'', [Str ''A'', Str ''A'', Str ''B'', Str ''B'']),
      (''event1'', [Str ''v'', Str ''v'', Str ''v'', Str ''v'']),
      (''event2'', [Null, Str ''x'', Null, Str ''y''])]\<rparr>"

definition ab_table :: "cell frame" where
  "ab_table = \<lparr>nrows = 2, cols =
     [(''assignment'', [Label (Str ''A''), Label (Str ''B'')]),
      (''count'', [Count 2, Count 2]),
      (''sum'', [Count 1, Count 1]),
      (''conversion_rate'', [Rate (Fin (1 / 2)), Rate (Fin (1 / 2))])]\<rparr>"

text \<open>A dataset that already has a column named \<open>converted\<close>.\<close>

definition relabelled_frame :: "val frame" where
  "relabelled_frame = \<lparr>nrows = 2, cols =
     [(''assignment'', [Str ''A'', Str ''B'']),
      (''event1'', [Str ''v'', Str ''v'']),
      (''event2'', [Null, Str ''x'']),
      (''converted'', [Str ''yes'', Str ''no''])]\<rparr>"

text \<open>Two datasets with one event column, which differ in that column only.\<close>

definition one_event_frame :: "val frame" where
  "one_event_frame = \<lparr>nrows = 2, cols =
     [(''assignment'', [Str ''A'', Str ''B'']), (''event'', [Null, Str ''x''])]\<rparr>"

definition one_event_frame' :: "val frame" where
  "one_event_frame' = \<lparr>nrows = 2, cols =
     [(''assignment'', [Str ''A'', Str ''B'']), (''event'', [Str ''y'', Str ''x''])]\<rparr>"

text \<open>
  A dataset whose first row belongs to variant B, and the table computed for it.
\<close>

definition ba_frame :: "val frame" where
  "ba_frame = \<lparr>nrows = 3, cols =
     [(''assignment'', [Str ''B'', Str ''A'', Str ''B'']),
      (''event1'', [Str ''v'', Str ''v'', Str ''v'']),
      (''event2'', [Str ''x'', Str ''y'', Null])]\<rparr>"

definition ba_table :: "cell frame" where
  "ba_table = \<lparr>nrows = 2, cols =
     [(''assignment'', [Label (Str ''A''), Label (Str ''B'')]),
      (''count'', [Count 1, Count 2]),
      (''sum'', [Count 1, Count 1]),
      (''conversion_rate'', [Rate (Fin 1), Rate (Fin (1 / 2))])]\<rparr>"

text \<open>
  Two datasets in which no row of variant A converted, and the tables computed for them.
\<close>

definition zero_rate_frame :: "val frame" where
  "zero_rate_frame = \<lparr>nrows = 2, cols =
     [(''assignment'', [Str ''A'', Str ''B'']),
      (''event1'', [Str ''v'', Str ''v'']),
      (''event2'', [Null, Str ''x''])]\<rparr>"

definition zero_rate_table :: "cell frame" where
  "zero_rate_table = \<lparr>nrows = 2, cols =
     [(''assignment'', [Label (Str ''A''), Label (Str ''B'')]),
      (''count'', [Count 1, Count 1]),
      (''sum'', [Count 0, Count 1]),
      (''conversion_rate'', [Rate (Fin 0), Rate (Fin 1)])]\<rparr>"

definition no_conversion_frame :: "val frame" where
  "no_conversion_frame = \<lparr>nrows = 2, cols =
     [(''assignment'', [Str ''A'', Str ''B'']),
      (''event1'', [Str ''v'', Str ''v'']),
      (''event2'', [Null, Null])]\<rparr>"

definition no_conversion_table :: "cell frame" where
  "no_conversion_table = \<lparr>nrows = 2, cols =
     [(''assignment'', [Label (Str ''A''), Label (Str ''B'')]),
      (''count'', [Count 1, Count 1]),
      (''sum'', [Count 0, Count 0]),
      (''conversion_rate'', [Rate (Fin 0), Rate (Fin 0)])]\<rparr>"

text \<open>
  A dataset in which no row is assigned to a variant, and the table computed for it; a
  dataset whose assignment column is named \<open>count\<close>; an enriched dataset of three rows
  with one conversion; an enriched dataset in which the only converted row has no variant.
\<close>

definition unassigned_frame :: "val frame" where
  "unassigned_frame = \<lparr>nrows = 2, cols =
     [(''assignment'', [Null, Null]),
      (''event1'', [Str ''v'', Str ''v'']),
      (''event2'', [Str ''x'', Null])]\<rparr>"

definition empty_table :: "cell frame" where
  "empty_table = \<lparr>nrows = 0, cols =
     [(''assignment'', []), (''count'', []), (''sum'', []), (''conversion_rate'', [])]\<rparr>"

definition count_named_frame :: "val frame" where
  "count_named_frame = \<lparr>nrows = 2, cols =
     [(''count'', [Str ''A'', Str ''B'']),
      (''event1'', [Str ''v'', Str ''v'']),
      (''event2'', [Str ''x'', Null])]\<rparr>"



text \<open>
  The curves plotted for the four-row dataset once it is enriched, with the function
  \<open>a * x + b\<close> of the point and the two parameters in the place of the density.
\<close>

definition ab_figure :: "curve list" where
  "ab_figure =
    [\<lparr>variant = Str ''A'', param_a = 2, param_b = 2, grid = linspace 0 1 1000,
      density = map (\<lambda>t. Fin (2 * t + 2)) (linspace 0 1 1000)\<rparr>,
     \<lparr>variant = Str ''B'', param_a = 2, param_b = 2, grid = linspace 0 1 1000,
      density = map (\<lambda>t. Fin (2 * t + 2)) (linspace 0 1 1000)\<rparr>]"

text \<open>
  A dataset with a row that has no variant, and the table computed for it.
\<close>

definition partly_assigned_frame :: "val frame" where
  "partly_assigned_frame = \<lparr>nrows = 4, cols =
     [(''assignment'', [Str ''A'', Null, Str ''B'', Str ''A'']),
      (''event1'', [Str ''v'', Str ''v'', Str ''v'', Str ''v'']),
      (''event2'', [Str ''x'', Str ''y'', Null, Null])]\<rparr>"

definition partly_assigned_table :: "cell frame" where
  "partly_assigned_table = \<lparr>nrows = 2, cols =
     [(''assignment'', [Label (Str ''A''), Label (Str ''B'')]),
      (''count'', [Count 2, Count 1]),
      (''sum'', [Count 1, Count 0]),
      (''conversion_rate'', [Rate (Fin (1 / 2)), Rate (Fin 0)])]\<rparr>"

text \<open>
  A dataset whose column \<open>converted\<close> has a null cell in its first row, and the table
  computed when that column is named as the assignment column.
\<close>

definition converted_arm_frame :: "val frame" where
  "converted_arm_frame = \<lparr>nrows = 2, cols =
     [(''converted'', [Null, Str ''x'']),
      (''event1'', [Str ''v'', Str ''v'']),
      (''event2'', [Str ''y'', Null])]\<rparr>"

definition converted_arm_table :: "cell frame" where
  "converted_arm_table = \<lparr>nrows = 2, cols =
     [(''converted'', [Label (Bool False), Label (Bool True)]),
      (''count'', [Count 1, Count 1]),
      (''sum'', [Count 0, Count 1]),
      (''conversion_rate'', [Rate (Fin 0), Rate (Fin 1)])]\<rparr>"

section \<open>Rounding\<close>

lemma round_half_even_error: "\<bar>of_int (round_half_even y) - y\<bar> \<le> 1 / 2"
proof -
  have "of_int \<lfloor>y\<rfloor> \<le> y" and "y < of_int \<lfloor>y\<rfloor> + 1" by linarith+
  then show ?thesis
    by (auto simp: round_half_even_def Let_def abs_le_iff)
qed

lemma float_exponent_le:
  assumes "0 < x"
  shows "2 powi (float_exponent x) \<le> x"
proof (cases "1 \<le> x")
  case True
  let ?n = "\<lfloor>x\<rfloor>"
  from True have n: "0 < ?n" by simp
  from bitlen_bounds [OF n] have b: "2 ^ nat (bitlen ?n - 1) \<le> ?n" by simp
  from n have "1 \<le> bitlen ?n" by (auto simp: bitlen_alt_def)
  then have "(2 :: rat) powi (bitlen ?n - 1) = 2 ^ nat (bitlen ?n - 1)"
    by (simp add: power_int_def)
  also have "\<dots> = of_int (2 ^ nat (bitlen ?n - 1))" by simp
  also have "\<dots> \<le> of_int ?n" using b by (simp only: of_int_le_iff)
  also have "\<dots> \<le> x" by simp
  finally show ?thesis using True by (simp add: float_exponent_def)
next
  case False
  let ?c = "\<lceil>1 / x\<rceil>"
  let ?k = "bitlen (?c - 1)"
  from False assms have "1 < 1 / x" by simp
  then have c: "0 < ?c - 1" by (simp add: less_ceiling_iff)
  from bitlen_bounds [OF c] have "?c - 1 < 2 ^ nat ?k" by simp
  then have "?c \<le> 2 ^ nat ?k" by simp
  then have "(of_int ?c :: rat) \<le> of_int (2 ^ nat ?k)" by (simp only: of_int_le_iff)
  then have "(of_int ?c :: rat) \<le> 2 ^ nat ?k" by simp
  moreover have "1 / x \<le> of_int ?c" by (rule le_of_int_ceiling)
  ultimately have "1 / x \<le> 2 ^ nat ?k" by (rule order_trans [rotated])
  then have "1 / 2 ^ nat ?k \<le> x"
    using assms by (simp add: field_simps)
  moreover have "(2 :: rat) powi (- ?k) = 1 / 2 ^ nat ?k"
    using bitlen_nonneg [of "?c - 1"] by (simp add: power_int_def inverse_eq_divide power_one_over)
  ultimately show ?thesis using False by (simp add: float_exponent_def)
qed

lemma round53_error: "\<bar>round53 x - x\<bar> \<le> \<bar>x\<bar> / 2 ^ 53"
proof (cases "x = 0")
  case True
  then show ?thesis by (simp add: round53_def)
next
  case False
  define s :: rat where "s = 2 powi (float_exponent \<bar>x\<bar> - 52)"
  define m where "m = round_half_even (\<bar>x\<bar> / s)"
  have s: "0 < s" by (simp add: s_def)
  have "s * 2 ^ 52 = 2 powi (float_exponent \<bar>x\<bar>)"
    by (simp add: s_def power_int_diff)
  also have "\<dots> \<le> \<bar>x\<bar>" using False by (intro float_exponent_le) simp
  finally have low: "s * 2 ^ 52 \<le> \<bar>x\<bar>" .
  have r: "round53 x = sgn x * of_int m * s"
    using False by (simp add: round53_def s_def m_def Let_def)
  have "x = sgn x * \<bar>x\<bar>" by (simp add: sgn_mult_abs)
  then have "round53 x - x = sgn x * (of_int m * s - \<bar>x\<bar>)"
    by (simp add: r algebra_simps)
  then have "\<bar>round53 x - x\<bar> = \<bar>sgn x * (of_int m * s - \<bar>x\<bar>)\<bar>"
    by (simp only:)
  also have "\<dots> = \<bar>of_int m * s - \<bar>x\<bar>\<bar>"
    using False by (simp add: abs_mult abs_sgn_eq)
  also have "\<dots> = s * \<bar>of_int m - \<bar>x\<bar> / s\<bar>"
  proof -
    have "of_int m * s - \<bar>x\<bar> = s * (of_int m - \<bar>x\<bar> / s)" using s by (simp add: field_simps)
    then show ?thesis using s by (simp add: abs_mult)
  qed
  also have "\<dots> \<le> s * (1 / 2)"
    using s round_half_even_error [of "\<bar>x\<bar> / s"] unfolding m_def by (intro mult_left_mono) simp_all
  also have "\<dots> = s * 2 ^ 52 / 2 ^ 53" by simp
  also have "\<dots> \<le> \<bar>x\<bar> / 2 ^ 53" using low by (intro divide_right_mono) simp_all
  finally show ?thesis .
qed


section \<open>Frames and error results\<close>

lemma ebind_Inr_iff: "(ebind m f = Inr y) = (\<exists>x. m = Inr x \<and> f x = Inr y)"
  by (cases m) auto

lemma ebind_Inl_iff: "(ebind m f = Inl e) = (m = Inl e \<or> (\<exists>x. m = Inr x \<and> f x = Inl e))"
  by (cases m) auto

lemma getitem_setitem: "getitem (setitem df c xs) c' = (if c' = c then Inr xs else getitem df c')"
  by (simp add: getitem_def setitem_def update_conv')

lemma columns_setitem:
  "columns (setitem df c xs) = (if c \<in> set (columns df) then columns df else columns df @ [c])"
  by (simp add: columns_def setitem_def update_keys)

lemma nrows_setitem: "nrows (setitem df c xs) = nrows df"
  by (simp add: setitem_def)

lemma getitem_columns: "c \<in> set (columns df) \<Longrightarrow> \<exists>xs. getitem df c = Inr xs"
  by (auto simp: getitem_def columns_def map_of_eq_None_iff split: option.splits)

lemma getitem_Inr_columns: "getitem df c = Inr xs \<Longrightarrow> c \<in> set (columns df)"
  by (auto simp: getitem_def columns_def split: option.splits dest: map_of_SomeD intro: rev_image_eqI)

lemma getitem_length: "wf_frame df \<Longrightarrow> getitem df c = Inr xs \<Longrightarrow> length xs = nrows df"
  by (auto simp: getitem_def wf_frame_def list_all_iff split: option.splits dest!: map_of_SomeD)

section \<open>Grouping and the table of conversion records\<close>

lemma set_unique: "set (unique xs) = set xs"
  by (simp add: unique_def)

lemma distinct_unique: "distinct (unique xs)"
  by (simp add: unique_def)

lemma unique_distinct: "distinct xs \<Longrightarrow> unique xs = xs"
  by (simp add: unique_def distinct_remdups_id)

lemma set_group_keys: "set (group_keys ks) = set ks - {Null}"
  by (auto simp: group_keys_def set_unique)

lemma distinct_group_keys: "distinct (group_keys ks)"
  by (simp add: group_keys_def distinct_unique)

lemma sorted_group_keys: "sorted (map rank (group_keys ks))"
  by (simp add: group_keys_def)

lemma length_group_of: "length ks = length vs \<Longrightarrow> length (group_of ks vs k) = count_list ks k"
  by (induction ks vs rule: list_induct2) (auto simp: group_of_def)

lemma count_list_filter: "P k \<Longrightarrow> count_list (filter P ks) k = count_list ks k"
  by (induction ks) auto

lemma sum_count_group_keys:
  "sum_list (map (count_list ks) (group_keys ks)) = length (filter (\<lambda>k. k \<noteq> Null) ks)"
proof -
  let ?nn = "filter (\<lambda>k. k \<noteq> Null) ks"
  have "sum_list (map (count_list ks) (group_keys ks)) = sum (count_list ks) (set (group_keys ks))"
    by (simp add: sum_list_distinct_conv_sum_set distinct_group_keys)
  also have "\<dots> = sum (count_list ?nn) (set ?nn)"
    by (rule sum.cong) (auto simp: set_group_keys count_list_filter)
  also have "\<dots> = length ?nn"
    by (rule sum_count_set) auto
  finally show ?thesis .
qed

lemma emap_Inr: "(\<And>x. x \<in> set xs \<Longrightarrow> f x = Inr (g x)) \<Longrightarrow> emap f xs = Inr (map g xs)"
  by (induction xs) auto

lemma series_div_counts:
  "series_div (map (\<lambda>k. Count (s k)) idx) (map (\<lambda>k. Count (c k)) idx)
     = Inr (map (\<lambda>k. Rate (f_div (Fin (of_nat (s k))) (Fin (of_nat (c k))))) idx)"
  by (induction idx) (auto simp: series_div_def)


lemma getitem_cons: "getitem \<lparr>nrows = n, cols = (c, xs) # cs\<rparr> c' = (if c' = c then Inr xs else getitem \<lparr>nrows = n, cols = cs\<rparr> c')"
  by (simp add: getitem_def)

lemma conversion_table_eq:
  assumes "getitem df a = Inr ks"
  shows "conversion_table df a flags =
    (if a = ''count'' \<or> a = ''sum'' then Inl ValueError
     else Inr (setitem
       \<lparr>nrows = length (group_keys ks),
        cols = [(a, map Label (group_keys ks)),
                (''count'', map (\<lambda>k. Count (length (group_of ks flags k))) (group_keys ks)),
                (''sum'', map (\<lambda>k. Count (length (filter id (group_of ks flags k)))) (group_keys ks))]\<rparr>
       ''conversion_rate''
       (map (\<lambda>k. Rate (f_div (Fin (of_nat (length (filter id (group_of ks flags k)))))
                                (Fin (of_nat (length (group_of ks flags k)))))) (group_keys ks))))"
proof (cases "a = ''count'' \<or> a = ''sum''")
  case True
  then show ?thesis using assms
    by (auto simp: conversion_table_def reset_index_def agg_count_sum_def Let_def)
next
  case False
  then have r: "reset_index a (agg_count_sum ks flags) = Inr \<lparr>nrows = length (group_keys ks),
        cols = [(a, map Label (group_keys ks)),
                (''count'', map (\<lambda>k. Count (length (group_of ks flags k))) (group_keys ks)),
                (''sum'', map (\<lambda>k. Count (length (filter id (group_of ks flags k)))) (group_keys ks))]\<rparr>"
    by (simp add: reset_index_def agg_count_sum_def Let_def)
  from False have ne: "''count'' \<noteq> a" "''sum'' \<noteq> a" by auto
  show ?thesis using False ne
    by (simp add: conversion_table_def assms r getitem_cons series_div_counts del: f_div.simps)
qed

lemma calculate_conversion_rates_run:
  assumes "\<not> df_empty df" "e1 \<in> set (columns df)" "e2 \<in> set (columns df)" "a \<in> set (columns df)"
    and "getitem df e2 = Inr ev2"
  shows "calculate_conversion_rates df e1 e2 a =
    (setitem df ''converted'' (map (\<lambda>v. Bool (v \<noteq> Null)) ev2),
     ebind (conversion_table (setitem df ''converted'' (map (\<lambda>v. Bool (v \<noteq> Null)) ev2)) a
              (map (\<lambda>v. v \<noteq> Null) ev2))
       (\<lambda>t. ebind (lift_of t a) (\<lambda>l. Inr (Some t, l))))"
  using assms by (simp add: calculate_conversion_rates_def Let_def invert_def isnull_def comp_def)

lemma calculate_conversion_rates_Some:
  assumes "calculate_conversion_rates df e1 e2 a = (df', Inr (Some t, l))"
  shows "\<not> df_empty df \<and> e1 \<in> set (columns df) \<and> e2 \<in> set (columns df) \<and> a \<in> set (columns df)
    \<and> (\<exists>ev2. getitem df e2 = Inr ev2
          \<and> df' = setitem df ''converted'' (map (\<lambda>v. Bool (v \<noteq> Null)) ev2)
          \<and> conversion_table df' a (map (\<lambda>v. v \<noteq> Null) ev2) = Inr t
          \<and> lift_of t a = Inr l)"
proof -
  have g: "\<not> (df_empty df \<or> e1 \<notin> set (columns df) \<or> e2 \<notin> set (columns df) \<or> a \<notin> set (columns df))"
  proof
    assume "df_empty df \<or> e1 \<notin> set (columns df) \<or> e2 \<notin> set (columns df) \<or> a \<notin> set (columns df)"
    then have "calculate_conversion_rates df e1 e2 a = (df, Inr (None, None))"
      by (simp add: calculate_conversion_rates_def)
    with assms show False by simp
  qed
  then obtain ev2 where ev2: "getitem df e2 = Inr ev2" using getitem_columns by blast
  from g ev2 assms show ?thesis
    by (auto simp: calculate_conversion_rates_run ebind_Inr_iff)
qed

lemma conversion_table_columns:
  assumes "getitem d a = Inr ks" and "conversion_table d a flags = Inr t"
  shows "a \<noteq> ''count''" and "a \<noteq> ''sum''"
    and "nrows t = length (group_keys ks)"
    and "getitem t ''count'' = Inr (map (\<lambda>k. Count (length (group_of ks flags k))) (group_keys ks))"
    and "getitem t ''sum'' = Inr (map (\<lambda>k. Count (length (filter id (group_of ks flags k)))) (group_keys ks))"
    and "getitem t ''conversion_rate'' =
          Inr (map (\<lambda>k. Rate (f_div (Fin (of_nat (length (filter id (group_of ks flags k)))))
                                      (Fin (of_nat (length (group_of ks flags k)))))) (group_keys ks))"
    and "a \<noteq> ''conversion_rate'' \<Longrightarrow> getitem t a = Inr (map Label (group_keys ks))"
proof -
  from assms show ne: "a \<noteq> ''count''" "a \<noteq> ''sum''"
    by (auto simp: conversion_table_eq split: if_splits)
  with assms have t: "t = setitem
       \<lparr>nrows = length (group_keys ks),
        cols = [(a, map Label (group_keys ks)),
                (''count'', map (\<lambda>k. Count (length (group_of ks flags k))) (group_keys ks)),
                (''sum'', map (\<lambda>k. Count (length (filter id (group_of ks flags k)))) (group_keys ks))]\<rparr>
       ''conversion_rate''
       (map (\<lambda>k. Rate (f_div (Fin (of_nat (length (filter id (group_of ks flags k)))))
                                (Fin (of_nat (length (group_of ks flags k)))))) (group_keys ks))"
    by (simp add: conversion_table_eq)
  from ne have ne': "''count'' \<noteq> a" "''sum'' \<noteq> a" by auto
  show "nrows t = length (group_keys ks)" by (simp add: t nrows_setitem)
  show "getitem t ''count'' = Inr (map (\<lambda>k. Count (length (group_of ks flags k))) (group_keys ks))"
    using ne ne' by (simp add: t getitem_setitem getitem_cons)
  show "getitem t ''sum'' = Inr (map (\<lambda>k. Count (length (filter id (group_of ks flags k)))) (group_keys ks))"
    using ne ne' by (simp add: t getitem_setitem getitem_cons)
  show "getitem t ''conversion_rate'' =
          Inr (map (\<lambda>k. Rate (f_div (Fin (of_nat (length (filter id (group_of ks flags k)))))
                                      (Fin (of_nat (length (group_of ks flags k)))))) (group_keys ks))"
    by (simp add: t getitem_setitem)
  show "getitem t a = Inr (map Label (group_keys ks))" if "a \<noteq> ''conversion_rate''"
    using that by (simp add: t getitem_setitem getitem_cons)
qed

lemma rate_bounds:
  assumes "0 < c" and "s \<le> c"
  shows "f_div (Fin (of_nat s)) (Fin (of_nat c)) = Fin (of_nat s / of_nat c)"
    and "(0::rat) \<le> of_nat s / of_nat c" and "(of_nat s / of_nat c :: rat) \<le> 1"
  using assms by (auto simp: divide_le_eq_1)

lemma group_of_map: "group_of (map f xs) (map g xs) y = map g (filter (\<lambda>x. f x = y) xs)"
  by (induction xs) (simp_all add: group_of_def)

lemma first_where_rate:
  assumes ga: "getitem t a = Inr (map Label idx)"
    and gr: "getitem t ''conversion_rate'' = Inr (map (\<lambda>k. Rate (r k)) idx)"
    and k: "k \<in> set idx"
  shows "\<exists>x. first_where t a (Label k) ''conversion_rate'' = Inr (Rate x)"
proof -
  have g: "group_of (map Label idx) (map (\<lambda>k. Rate (r k)) idx) (Label k)
      = map (\<lambda>k. Rate (r k)) (filter (\<lambda>x. x = k) idx)"
    by (simp add: group_of_map)
  from k have "filter (\<lambda>x. x = k) idx \<noteq> []" by (auto simp: filter_empty_conv)
  then obtain z zs where "filter (\<lambda>x. x = k) idx = z # zs" by (cases "filter (\<lambda>x. x = k) idx") auto
  then have "first_where t a (Label k) ''conversion_rate'' = Inr (Rate (r z))"
    by (simp add: first_where_def ga gr g)
  then show ?thesis by blast
qed

lemma lift_of_returns:
  assumes d: "getitem d a = Inr ks" and t: "conversion_table d a flags = Inr t"
  shows "\<exists>l. lift_of t a = Inr l"
proof (cases "a = ''conversion_rate''")
  case True
  note cols = conversion_table_columns [OF d t]
  let ?rates = "map (\<lambda>k. Rate (f_div (Fin (of_nat (length (filter id (group_of ks flags k)))))
                                      (Fin (of_nat (length (group_of ks flags k)))))) (group_keys ks)"
  have g: "getitem t a = Inr ?rates" using cols(6) True by simp
  have "Label (Str ''A'') \<notin> set (unique ?rates)" by (auto simp: set_unique)
  then show ?thesis unfolding lift_of_def g by simp
next
  case False
  note cols = conversion_table_columns [OF d t]
  let ?L = "map Label (group_keys ks)"
  have g: "getitem t a = Inr ?L" by (rule cols(7) [OF False])
  show ?thesis
  proof (cases "length (unique ?L) = 2 \<and> Label (Str ''A'') \<in> set (unique ?L) \<and> Label (Str ''B'') \<in> set (unique ?L)")
    case False
    then show ?thesis unfolding lift_of_def g by auto
  next
    case True
    then have "Str ''A'' \<in> set (group_keys ks)" and "Str ''B'' \<in> set (group_keys ks)"
      by (auto simp: set_unique)
    from first_where_rate [OF g cols(6) this(1)] first_where_rate [OF g cols(6) this(2)]
    obtain ra rb where "first_where t a (Label (Str ''A'')) ''conversion_rate'' = Inr (Rate ra)"
      and "first_where t a (Label (Str ''B'')) ''conversion_rate'' = Inr (Rate rb)"
      by blast
    with True show ?thesis unfolding lift_of_def g by simp
  qed
qed

text \<open>
  Past its guard, and for an assignment column named neither \<open>count\<close> nor \<open>sum\<close>,
  \<open>calculate_conversion_rates\<close> returns a table and a lift: no step of lines 34 to 51
  raises.
\<close>

lemma calculate_conversion_rates_returns:
  assumes "\<not> df_empty df" and "e1 \<in> set (columns df)" and "getitem df e2 = Inr ev2"
    and "a \<in> set (columns df)" and "a \<noteq> ''count''" and "a \<noteq> ''sum''"
  shows "\<exists>t l. calculate_conversion_rates df e1 e2 a
    = (setitem df ''converted'' (map (\<lambda>v. Bool (v \<noteq> Null)) ev2), Inr (Some t, l))"
proof -
  let ?df' = "setitem df ''converted'' (map (\<lambda>v. Bool (v \<noteq> Null)) ev2)"
  have e2: "e2 \<in> set (columns df)" by (rule getitem_Inr_columns [OF assms(3)])
  from assms(4) have "a \<in> set (columns ?df')" by (simp add: columns_setitem)
  then obtain ks where ks: "getitem ?df' a = Inr ks" using getitem_columns by blast
  from assms(5,6) obtain t where t: "conversion_table ?df' a (map (\<lambda>v. v \<noteq> Null) ev2) = Inr t"
    by (simp add: conversion_table_eq [OF ks])
  from lift_of_returns [OF ks t] obtain l where l: "lift_of t a = Inr l" by blast
  have "calculate_conversion_rates df e1 e2 a = (?df', Inr (Some t, l))"
    by (simp add: calculate_conversion_rates_run [OF assms(1,2) e2 assms(4,3)] t l)
  then show ?thesis by blast
qed

section \<open>The guard of the conversion analyzer\<close>

text \<open>
  C4: \<open>calculate_conversion_rates\<close> returns \<open>(None, None)\<close> exactly when the dataset is
  empty or one of the three column names is not a column of it; in that case it returns
  without raising and leaves the frame as it was.
\<close>

theorem calculate_conversion_rates_absent_iff:
  "((snd (calculate_conversion_rates df event1_col event2_col assignment_col) = Inr (None, None)) =
      (df_empty df \<or> event1_col \<notin> set (columns df) \<or> event2_col \<notin> set (columns df)
        \<or> assignment_col \<notin> set (columns df)))
   \<and> (df_empty df \<or> event1_col \<notin> set (columns df) \<or> event2_col \<notin> set (columns df)
        \<or> assignment_col \<notin> set (columns df)
      \<longrightarrow> calculate_conversion_rates df event1_col event2_col assignment_col = (df, Inr (None, None)))"
  by (auto simp: calculate_conversion_rates_def Let_def ebind_Inr_iff split: sum.splits)

theorem calculate_conversion_rates_absent_iff_witness:
  "df_empty no_rows
   \<and> calculate_conversion_rates no_rows ''e1'' ''e2'' ''g'' = (no_rows, Inr (None, None))"
  using calculate_conversion_rates_absent_iff [of no_rows "''e1''" "''e2''" "''g''"]
  by (simp add: no_rows_def df_empty_def)

section \<open>Counts and rates of the conversion records\<close>

lemma ab_wf: "wf_frame ab_frame"
  by code_simp

lemma ab_keys: "getitem ab_frame ''assignment'' = Inr [Str ''A'', Str ''A'', Str ''B'', Str ''B'']"
  by code_simp

lemma ab_run:
  "calculate_conversion_rates ab_frame ''event1'' ''event2'' ''assignment''
   = (setitem ab_frame ''converted'' [Bool False, Bool True, Bool False, Bool True],
      Inr (Some ab_table, Some (Fin 0)))"
  by code_simp

text \<open>
  C6: for a dataset whose assignment column holds only \<open>"A"\<close> and \<open>"B"\<close> and on which
  \<open>calculate_conversion_rates\<close> returns a table, the counts of the table add up to the
  number of rows of the dataset, every count is positive, and every conversion rate is a
  finite number between 0 and 1.
\<close>

theorem conversion_counts_total:
  assumes "wf_frame df"
    and "getitem df a = Inr ks" and "set ks \<subseteq> {Str ''A'', Str ''B''}"
    and "calculate_conversion_rates df e1 e2 a = (df', Inr (Some t, l))"
  shows "\<exists>ns qs. getitem t ''count'' = Inr (map Count ns)
     \<and> getitem t ''conversion_rate'' = Inr (map (\<lambda>q. Rate (Fin q)) qs)
     \<and> length ns = nrows t \<and> length qs = nrows t
     \<and> sum_list ns = nrows df \<and> list_all (\<lambda>n. 0 < n) ns \<and> list_all (\<lambda>q. 0 \<le> q \<and> q \<le> 1) qs"
proof -
  from calculate_conversion_rates_Some [OF assms(4)] obtain ev2 where
    ev2: "getitem df e2 = Inr ev2"
    and df': "df' = setitem df ''converted'' (map (\<lambda>v. Bool (v \<noteq> Null)) ev2)"
    and t: "conversion_table df' a (map (\<lambda>v. v \<noteq> Null) ev2) = Inr t"
    by blast
  let ?flags = "map (\<lambda>v. v \<noteq> Null) ev2"
  define ks' where "ks' = (if a = ''converted'' then map (\<lambda>v. Bool (v \<noteq> Null)) ev2 else ks)"
  have gk: "getitem df' a = Inr ks'"
    by (simp add: df' getitem_setitem ks'_def assms(2))
  have l1: "length ev2 = nrows df" by (rule getitem_length [OF assms(1) ev2])
  have l2: "length ks = nrows df" by (rule getitem_length [OF assms(1) assms(2)])
  have len: "length ks' = nrows df" "length ?flags = nrows df"
    by (simp_all add: ks'_def l1 l2)
  have nonull: "Null \<notin> set ks'"
    using assms(3) by (auto simp: ks'_def)
  let ?idx = "group_keys ks'"
  let ?c = "\<lambda>k. length (group_of ks' ?flags k)"
  let ?s = "\<lambda>k. length (filter id (group_of ks' ?flags k))"
  note cols = conversion_table_columns [OF gk t]
  have cnt: "?c k = count_list ks' k" for k
    by (rule length_group_of) (simp add: len(1) l1)
  have pos: "0 < ?c k" if "k \<in> set ?idx" for k
    using that count_list_0_iff [of ks' k] by (auto simp: cnt set_group_keys)
  have le: "?s k \<le> ?c k" for k by simp
  have rates: "map (\<lambda>k. Rate (f_div (Fin (of_nat (?s k))) (Fin (of_nat (?c k))))) ?idx
      = map (\<lambda>q. Rate (Fin q)) (map (\<lambda>k. of_nat (?s k) / of_nat (?c k)) ?idx)"
    using pos by (simp add: rate_bounds(1) [OF _ le] del: f_div.simps)
  have total: "sum_list (map ?c ?idx) = nrows df"
  proof -
    have "sum_list (map ?c ?idx) = sum_list (map (count_list ks') ?idx)"
      by (simp add: cnt)
    also have "\<dots> = length (filter (\<lambda>k. k \<noteq> Null) ks')" by (rule sum_count_group_keys)
    also have "\<dots> = length ks'" using nonull by (induction ks') auto
    finally show ?thesis by (simp add: len)
  qed
  have bounds: "list_all (\<lambda>q. 0 \<le> q \<and> q \<le> 1) (map (\<lambda>k. of_nat (?s k) / of_nat (?c k) :: rat) ?idx)"
    using pos rate_bounds(2,3) [OF _ le] by (simp add: list_all_iff)
  have "getitem t ''count'' = Inr (map Count (map ?c ?idx))"
    by (simp add: cols(4) comp_def)
  moreover have "getitem t ''conversion_rate'' = Inr (map (\<lambda>q. Rate (Fin q)) (map (\<lambda>k. of_nat (?s k) / of_nat (?c k)) ?idx))"
    using cols(6) rates by simp
  moreover have "list_all (\<lambda>n. 0 < n) (map ?c ?idx)"
    using pos by (simp add: list_all_iff)
  ultimately show ?thesis using total bounds cols(3)
    by (intro exI [of _ "map ?c ?idx"] exI [of _ "map (\<lambda>k. of_nat (?s k) / of_nat (?c k)) ?idx"]) simp
qed


theorem conversion_counts_total_witness:
  "\<exists>ns qs. getitem ab_table ''count'' = Inr (map Count ns)
     \<and> getitem ab_table ''conversion_rate'' = Inr (map (\<lambda>q. Rate (Fin q)) qs)
     \<and> length ns = nrows ab_table \<and> length qs = nrows ab_table
     \<and> sum_list ns = nrows ab_frame \<and> list_all (\<lambda>n. 0 < n) ns
     \<and> list_all (\<lambda>q. 0 \<le> q \<and> q \<le> 1) qs"
  by (rule conversion_counts_total [OF ab_wf ab_keys _ ab_run]) simp

section \<open>The effect on the dataset\<close>

lemma ab_guard:
  "\<not> df_empty ab_frame" "''event1'' \<in> set (columns ab_frame)" "''event2'' \<in> set (columns ab_frame)"
  "''assignment'' \<in> set (columns ab_frame)"
  by code_simp+

text \<open>
  C9, as the claim is stated, fails for a dataset that already has a column named
  \<open>converted\<close>: line 34 replaces its cells by the derived flags.
\<close>

theorem converted_column_overwritten:
  "\<not> df_empty relabelled_frame
   \<and> ''event1'' \<in> set (columns relabelled_frame) \<and> ''event2'' \<in> set (columns relabelled_frame)
   \<and> ''assignment'' \<in> set (columns relabelled_frame)
   \<and> getitem relabelled_frame ''converted'' = Inr [Str ''yes'', Str ''no'']
   \<and> getitem (fst (calculate_conversion_rates relabelled_frame ''event1'' ''event2'' ''assignment''))
        ''converted'' = Inr [Bool False, Bool True]"
  by code_simp

text \<open>
  C9, amended: past the guard the frame keeps its rows, its columns and their order, and
  every column other than \<open>converted\<close> keeps its cells; the column \<open>converted\<close> is
  appended when the dataset has none and is set to the flags derived from the second
  event column (true where that column is non-null), replacing the cells of a column of
  that name.
\<close>

theorem calculate_conversion_rates_frame:
  assumes "\<not> df_empty df" and "event1_col \<in> set (columns df)" and "event2_col \<in> set (columns df)"
    and "assignment_col \<in> set (columns df)"
    and "df' = fst (calculate_conversion_rates df event1_col event2_col assignment_col)"
  shows "nrows df' = nrows df
    \<and> columns df' = (if ''converted'' \<in> set (columns df) then columns df else columns df @ [''converted''])
    \<and> (\<forall>c. c \<noteq> ''converted'' \<longrightarrow> getitem df' c = getitem df c)
    \<and> (\<exists>ev2. getitem df event2_col = Inr ev2
          \<and> getitem df' ''converted'' = Inr (map (\<lambda>v. Bool (v \<noteq> Null)) ev2))"
proof -
  from assms(3) obtain ev2 where ev2: "getitem df event2_col = Inr ev2"
    using getitem_columns by blast
  have "df' = setitem df ''converted'' (map (\<lambda>v. Bool (v \<noteq> Null)) ev2)"
    using assms ev2 by (simp add: calculate_conversion_rates_run)
  then show ?thesis
    using ev2 by (simp add: nrows_setitem columns_setitem getitem_setitem)
qed

theorem calculate_conversion_rates_frame_witness:
  "nrows (fst (calculate_conversion_rates ab_frame ''event1'' ''event2'' ''assignment'')) = nrows ab_frame
   \<and> columns (fst (calculate_conversion_rates ab_frame ''event1'' ''event2'' ''assignment''))
       = [''assignment'', ''event1'', ''event2'', ''converted'']
   \<and> getitem (fst (calculate_conversion_rates ab_frame ''event1'' ''event2'' ''assignment'')) ''event2''
       = getitem ab_frame ''event2''
   \<and> getitem (fst (calculate_conversion_rates ab_frame ''event1'' ''event2'' ''assignment'')) ''assignment''
       = getitem ab_frame ''assignment''"
proof -
  have c: "columns ab_frame = [''assignment'', ''event1'', ''event2'']" by code_simp
  from calculate_conversion_rates_frame [OF ab_guard refl] show ?thesis
    by (simp add: c)
qed

section \<open>The first event column\<close>

lemma df_empty_columns: "df_empty df = (nrows df = 0 \<or> columns df = [])"
  by (simp add: df_empty_def columns_def)

lemma conversion_table_cong:
  "getitem d1 a = getitem d2 a \<Longrightarrow> conversion_table d1 a flags = conversion_table d2 a flags"
  by (simp add: conversion_table_def)

text \<open>
  C5, as the claim is stated, fails when the first event column is also the second one:
  the two datasets below differ only in that column, and the rate of variant A differs.
\<close>

theorem event1_values_matter_when_shared:
  "nrows one_event_frame' = nrows one_event_frame
   \<and> columns one_event_frame' = columns one_event_frame
   \<and> columns one_event_frame = [''assignment'', ''event'']
   \<and> getitem one_event_frame' ''assignment'' = getitem one_event_frame ''assignment''
   \<and> snd (calculate_conversion_rates one_event_frame ''event'' ''event'' ''assignment'')
       \<noteq> snd (calculate_conversion_rates one_event_frame' ''event'' ''event'' ''assignment'')"
  by code_simp

text \<open>
  C5, amended: when \<open>event1_col\<close> names a column other than \<open>event2_col\<close> and
  \<open>assignment_col\<close>, two datasets with the same rows and columns that differ only in
  the cells of that column give the same result (table, lift, or error).
\<close>

theorem event1_values_irrelevant:
  assumes "nrows df2 = nrows df1" and "columns df2 = columns df1"
    and "\<forall>c. c \<noteq> e1 \<longrightarrow> getitem df2 c = getitem df1 c"
    and "e1 \<noteq> e2" and "e1 \<noteq> a"
  shows "snd (calculate_conversion_rates df1 e1 e2 a) = snd (calculate_conversion_rates df2 e1 e2 a)"
proof (cases "df_empty df1 \<or> e1 \<notin> set (columns df1) \<or> e2 \<notin> set (columns df1) \<or> a \<notin> set (columns df1)")
  case True
  moreover from True have "df_empty df2 \<or> e1 \<notin> set (columns df2) \<or> e2 \<notin> set (columns df2) \<or> a \<notin> set (columns df2)"
    using assms(1,2) by (simp add: df_empty_columns)
  ultimately show ?thesis by (simp add: calculate_conversion_rates_def)
next
  case False
  then have g1: "\<not> df_empty df1" "e1 \<in> set (columns df1)" "e2 \<in> set (columns df1)" "a \<in> set (columns df1)"
    by auto
  then have g2: "\<not> df_empty df2" "e1 \<in> set (columns df2)" "e2 \<in> set (columns df2)" "a \<in> set (columns df2)"
    using assms(1,2) by (simp_all add: df_empty_columns)
  from g1(3) obtain ev2 where ev1: "getitem df1 e2 = Inr ev2" using getitem_columns by blast
  with assms(3,4) have ev2: "getitem df2 e2 = Inr ev2" by auto
  from assms(3,5) have "getitem df2 a = getitem df1 a" by auto
  then have "conversion_table (setitem df1 ''converted'' (map (\<lambda>v. Bool (v \<noteq> Null)) ev2)) a (map (\<lambda>v. v \<noteq> Null) ev2)
     = conversion_table (setitem df2 ''converted'' (map (\<lambda>v. Bool (v \<noteq> Null)) ev2)) a (map (\<lambda>v. v \<noteq> Null) ev2)"
    by (intro conversion_table_cong) (simp add: getitem_setitem)
  then show ?thesis
    by (simp add: calculate_conversion_rates_run [OF g1 ev1] calculate_conversion_rates_run [OF g2 ev2])
qed

theorem event1_values_irrelevant_witness:
  "snd (calculate_conversion_rates ab_frame ''event1'' ''event2'' ''assignment'')
   = snd (calculate_conversion_rates
       (setitem ab_frame ''event1'' [Null, Str ''w'', Null, Null]) ''event1'' ''event2'' ''assignment'')"
proof -
  have c: "columns (setitem ab_frame ''event1'' [Null, Str ''w'', Null, Null]) = columns ab_frame"
    by code_simp
  show ?thesis
    by (rule event1_values_irrelevant [OF _ c]) (simp_all add: nrows_setitem getitem_setitem)
qed

section \<open>The order of the conversion records\<close>

lemma ba_keys: "getitem ba_frame ''assignment'' = Inr [Str ''B'', Str ''A'', Str ''B'']"
  by code_simp

text \<open>
  C3, as the claim is stated, fails: \<open>groupby\<close> sorts its keys, so a dataset whose first
  row is of variant B still gets the record of variant A first.
\<close>

theorem records_not_in_first_occurrence_order:
  "getitem ba_frame ''assignment'' = Inr [Str ''B'', Str ''A'', Str ''B'']
   \<and> unique [Str ''B'', Str ''A'', Str ''B''] = [Str ''B'', Str ''A'']
   \<and> snd (calculate_conversion_rates ba_frame ''event1'' ''event2'' ''assignment'')
        = Inr (Some ba_table, Some (Fin (- 1 / 2)))
   \<and> getitem ba_table ''assignment'' = Inr [Label (Str ''A''), Label (Str ''B'')]"
  by code_simp

lemma sorted_records_of_table:
  assumes "calculate_conversion_rates df e1 e2 a = (df', Inr (Some t, l))"
    and "getitem df a = Inr ks"
    and "a \<noteq> ''converted''" and "a \<noteq> ''conversion_rate''"
  shows "\<exists>idx. getitem t a = Inr (map Label idx) \<and> nrows t = length idx
     \<and> distinct idx \<and> set idx = set ks - {Null} \<and> sorted (map rank idx)"
proof -
  from calculate_conversion_rates_Some [OF assms(1)] obtain ev2 where
    df': "df' = setitem df ''converted'' (map (\<lambda>v. Bool (v \<noteq> Null)) ev2)"
    and t: "conversion_table df' a (map (\<lambda>v. v \<noteq> Null) ev2) = Inr t"
    by blast
  have gk: "getitem df' a = Inr ks"
    using assms(2,3) by (simp add: df' getitem_setitem)
  note cols = conversion_table_columns [OF gk t]
  show ?thesis
    using cols(3) cols(7) [OF assms(4)] distinct_group_keys [of ks] set_group_keys [of ks]
      sorted_group_keys [of ks]
    by (intro exI [of _ "group_keys ks"]) simp
qed

text \<open>
  C3, amended: for every non-empty dataset in which the three named columns exist, and whose
  assignment column is named none of \<open>count\<close>, \<open>sum\<close>, \<open>converted\<close> and
  \<open>conversion_rate\<close>, \<open>calculate_conversion_rates\<close> returns a table; the table has
  exactly one record per distinct non-null cell of the assignment column, and the records
  are in ascending order of these cells.
\<close>

theorem conversion_records_sorted:
  assumes "\<not> df_empty df" and "e1 \<in> set (columns df)" and "e2 \<in> set (columns df)"
    and "getitem df a = Inr ks"
    and "a \<noteq> ''count''" and "a \<noteq> ''sum''" and "a \<noteq> ''converted''" and "a \<noteq> ''conversion_rate''"
  shows "\<exists>df' t l idx. calculate_conversion_rates df e1 e2 a = (df', Inr (Some t, l))
     \<and> getitem t a = Inr (map Label idx) \<and> nrows t = length idx
     \<and> distinct idx \<and> set idx = set ks - {Null} \<and> sorted (map rank idx)"
proof -
  from assms(3) obtain ev2 where ev2: "getitem df e2 = Inr ev2" using getitem_columns by blast
  have a: "a \<in> set (columns df)" by (rule getitem_Inr_columns [OF assms(4)])
  from calculate_conversion_rates_returns [OF assms(1,2) ev2 a assms(5,6)] obtain df' t l where
    run: "calculate_conversion_rates df e1 e2 a = (df', Inr (Some t, l))" by blast
  from sorted_records_of_table [OF run assms(4,7,8)] run show ?thesis by blast
qed

theorem conversion_records_sorted_witness:
  "\<exists>df' t l idx. calculate_conversion_rates ba_frame ''event1'' ''event2'' ''assignment''
       = (df', Inr (Some t, l))
     \<and> getitem t ''assignment'' = Inr (map Label idx) \<and> nrows t = length idx
     \<and> distinct idx \<and> set idx = set [Str ''B'', Str ''A'', Str ''B''] - {Null}
     \<and> sorted (map rank idx)"
proof -
  have g: "\<not> df_empty ba_frame" "''event1'' \<in> set (columns ba_frame)"
    "''event2'' \<in> set (columns ba_frame)"
    by code_simp+
  show ?thesis
    by (rule conversion_records_sorted [OF g ba_keys]) simp_all
qed

section \<open>The lift when variant A has no conversion\<close>

text \<open>
  C1: with the labels \<open>"A"\<close> and \<open>"B"\<close> and a conversion rate of 0 for variant A, line 45
  divides by zero. On \<open>float64\<close> values that does not raise: the lift returned is
  infinity when variant B has a conversion, and NaN when it has none.
\<close>

theorem lift_not_guarded_against_zero_rate:
  "calculate_conversion_rates zero_rate_frame ''event1'' ''event2'' ''assignment''
     = (setitem zero_rate_frame ''converted'' [Bool False, Bool True],
        Inr (Some zero_rate_table, Some PosInf))
   \<and> calculate_conversion_rates no_conversion_frame ''event1'' ''event2'' ''assignment''
     = (setitem no_conversion_frame ''converted'' [Bool False, Bool False],
        Inr (Some no_conversion_table, Some NaN))"
  by code_simp

theorem lift_not_guarded_against_zero_rate_witness:
  "map_sum id snd (snd (calculate_conversion_rates zero_rate_frame ''event1'' ''event2'' ''assignment''))
     = Inr (Some PosInf)
   \<and> map_sum id snd (snd (calculate_conversion_rates no_conversion_frame ''event1'' ''event2'' ''assignment''))
     = Inr (Some NaN)"
  using lift_not_guarded_against_zero_rate by simp

section \<open>Exceptions raised by the analytics functions\<close>

text \<open>
  C2: the functions can raise. For a dataset in which no row has a variant,
  \<open>calculate_conversion_rates\<close> returns an empty table; the contingency table built from
  the enriched dataset is then empty as well and \<open>chi2_contingency\<close> raises
  \<open>ValueError\<close>. \<open>calculate_conversion_rates\<close> itself raises \<open>ValueError\<close> in
  \<open>reset_index\<close> when the assignment column is named \<open>count\<close>.
\<close>

theorem chi_squared_raises_without_groups:
  "calculate_conversion_rates unassigned_frame ''event1'' ''event2'' ''assignment''
     = (setitem unassigned_frame ''converted'' [Bool True, Bool False], Inr (Some empty_table, None))
   \<and> perform_chi_squared_test chi2_p
        (Some (setitem unassigned_frame ''converted'' [Bool True, Bool False])) ''assignment''
     = Inl ValueError
   \<and> snd (calculate_conversion_rates count_named_frame ''event1'' ''event2'' ''count'') = Inl ValueError"
  by code_simp

theorem chi_squared_raises_without_groups_witness:
  "perform_chi_squared_test (\<lambda>obs. (NaN, NaN))
        (Some (fst (calculate_conversion_rates unassigned_frame ''event1'' ''event2'' ''assignment'')))
        ''assignment''
     = Inl ValueError"
  using chi_squared_raises_without_groups [of "\<lambda>obs. (NaN, NaN)"] by simp

section \<open>Degrees of freedom and expected frequencies\<close>
















lemma ab_enriched_wf: "wf_frame (setitem ab_frame ''converted'' [Bool False, Bool True, Bool False, Bool True])"
  by code_simp

lemma ab_enriched_columns:
  "getitem (setitem ab_frame ''converted'' [Bool False, Bool True, Bool False, Bool True]) ''assignment''
     = Inr [Str ''A'', Str ''A'', Str ''B'', Str ''B'']"
  "getitem (setitem ab_frame ''converted'' [Bool False, Bool True, Bool False, Bool True]) ''converted''
     = Inr [Bool False, Bool True, Bool False, Bool True]"
  by code_simp+







section \<open>The posterior chart\<close>

lemma emap_Inr_D: "emap f xs = Inr ys \<Longrightarrow> list_all2 (\<lambda>x y. f x = Inr y) xs ys"
  by (induction xs arbitrary: ys) (auto simp: ebind_Inr_iff)

lemma two_labels:
  assumes "length (unique ks) = 2" and "x \<in> set ks" and "y \<in> set ks" and "x \<noteq> y"
  shows "set ks = {x, y}"
proof -
  have "card (set ks) = 2"
    using distinct_card [OF distinct_unique [of ks]] assms(1) by (simp add: set_unique)
  moreover have "card {x, y} = 2" using assms(4) by simp
  moreover have "{x, y} \<subseteq> set ks" using assms(2,3) by simp
  ultimately show ?thesis by (metis card_subset_eq List.finite_set)
qed

lemma two_labels_length: "set ks = {x, y} \<Longrightarrow> x \<noteq> y \<Longrightarrow> length (unique ks) = 2"
  using distinct_card [OF distinct_unique [of ks]] by (simp add: set_unique)

lemma posterior_absent:
  assumes "getitem d a = Inr ks" and "set ks \<noteq> {Str ''A'', Str ''B''}"
  shows "create_posterior_distribution_chart pdf (Some d) a = Inr None"
proof (cases "''converted'' \<in> set (columns d)")
  case False
  then show ?thesis by (simp add: create_posterior_distribution_chart_def)
next
  case True
  then obtain cv where cv: "getitem d ''converted'' = Inr cv" using getitem_columns by blast
  have "length (unique ks) \<noteq> 2 \<or> Str ''A'' \<notin> set (unique ks) \<or> Str ''B'' \<notin> set (unique ks)"
    using assms(2) two_labels [of ks "Str ''A''" "Str ''B''"] by (auto simp: set_unique)
  then show ?thesis
    using assms(1) cv by (auto simp: create_posterior_distribution_chart_def Let_def)
qed

lemma posterior_Some:
  assumes "getitem d a = Inr ks" and "getitem d ''converted'' = Inr cv"
    and "create_posterior_distribution_chart pdf (Some d) a = Inr (Some fig)"
  shows "list_all2 (\<lambda>v c. \<exists>ab. beta_params (group_of ks cv v) = Inr ab
            \<and> c = \<lparr>variant = v, param_a = fst ab, param_b = snd ab, grid = linspace 0 1 1000,
                     density = map (\<lambda>t. pdf t (fst ab) (snd ab)) (linspace 0 1 1000)\<rparr>)
           (unique ks) fig"
proof -
  have "emap (\<lambda>v. ebind (beta_params (group_of ks cv v)) (\<lambda>ab.
            Inr \<lparr>variant = v, param_a = fst ab, param_b = snd ab, grid = linspace 0 1 1000,
                 density = map (\<lambda>t. pdf t (fst ab) (snd ab)) (linspace 0 1 1000)\<rparr>)) (unique ks)
        = Inr fig"
    using assms getitem_Inr_columns [OF assms(1)] getitem_Inr_columns [OF assms(2)]
    by (auto simp: create_posterior_distribution_chart_def Let_def ebind_Inr_iff split: if_splits)
  from emap_Inr_D [OF this] show ?thesis
    by (rule list_all2_mono) (auto simp: ebind_Inr_iff)
qed

lemma beta_params_Inr:
  assumes "beta_params g = Inr ab"
  shows "fst ab = int (length (filter (\<lambda>v. v = Bool True) g)) + 1"
    and "snd ab = int (length g) - int (length (filter (\<lambda>v. v = Bool True) g)) + 1"
    and "fst ab + snd ab = int (length g) + 2"
  using assms by (auto simp: beta_params_def Let_def split: if_splits)

lemma filter_group_of:
  "filter P (group_of ks vs k) = map snd (filter (\<lambda>p. fst p = k \<and> P (snd p)) (zip ks vs))"
  by (simp add: group_of_def filter_map comp_def conj_commute)

lemma round53_zero: "round53 0 = 0"
  by (simp add: round53_def)

lemma round53_one: "round53 1 = 1"
  by code_simp

lemma round53_step: "round53 (1 / 999) = 577037790093517 / 576460752303423488"
  by code_simp

lemma round53_bounds:
  assumes "0 \<le> y"
  shows "y * (1 - 1 / 2 ^ 53) \<le> round53 y" and "round53 y \<le> y * (1 + 1 / 2 ^ 53)"
proof -
  define e :: rat where "e = 1 / 2 ^ 53"
  have eq: "\<bar>y\<bar> / 2 ^ 53 = y * e" using assms by (simp add: e_def)
  have "\<bar>round53 y - y\<bar> \<le> \<bar>y\<bar> / 2 ^ 53" by (rule round53_error)
  then have "\<bar>round53 y - y\<bar> \<le> y * e" by (simp only: eq)
  then have "y - y * e \<le> round53 y" and "round53 y \<le> y + y * e"
    by (simp_all add: abs_le_iff)
  then have "y * (1 - e) \<le> round53 y" and "round53 y \<le> y * (1 + e)"
    by (simp_all add: right_diff_distrib distrib_left)
  then show "y * (1 - 1 / 2 ^ 53) \<le> round53 y" and "round53 y \<le> y * (1 + 1 / 2 ^ 53)"
    by (simp_all only: e_def)
qed

lemma round53_nonneg:
  assumes "0 \<le> y"
  shows "0 \<le> round53 y"
proof -
  have "0 \<le> y * (1 - 1 / 2 ^ 53)" using assms by (intro mult_nonneg_nonneg) simp_all
  also have "\<dots> \<le> round53 y" by (rule round53_bounds(1) [OF assms])
  finally show ?thesis .
qed

lemma linspace_length: "length (linspace start stop num) = Suc (num - 1)"
  by (simp add: linspace_def Let_def)

lemma linspace_last: "last (linspace start stop num) = stop"
  by (simp add: linspace_def Let_def)

lemma linspace_unit_nth:
  assumes "i < 999"
  shows "linspace 0 1 1000 ! i
    = round53 (round53 (of_nat i * (577037790093517 / 576460752303423488)))"
proof -
  have n: "(1000 :: nat) - 1 = 999" by simp
  have s: "(577037790093517 / 576460752303423488 :: rat) \<noteq> 0" by simp
  show ?thesis
    using assms unfolding linspace_def Let_def n
    by (simp add: nth_append round53_one round53_step)
qed

lemma round53_twice_bounds:
  assumes "0 \<le> lo" and "lo \<le> y" and "y \<le> hi"
  shows "lo * (1 - 1 / 2 ^ 53) \<le> round53 y" and "round53 y \<le> hi * (1 + 1 / 2 ^ 53)"
proof -
  from assms have y: "0 \<le> y" by simp
  have "lo * (1 - 1 / 2 ^ 53) \<le> y * (1 - 1 / 2 ^ 53)"
    using assms(2) by (rule mult_right_mono) simp
  also have "\<dots> \<le> round53 y" by (rule round53_bounds(1) [OF y])
  finally show "lo * (1 - 1 / 2 ^ 53) \<le> round53 y" .
  have "round53 y \<le> y * (1 + 1 / 2 ^ 53)" by (rule round53_bounds(2) [OF y])
  also have "\<dots> \<le> hi * (1 + 1 / 2 ^ 53)"
    using assms(3) by (rule mult_right_mono) simp
  finally show "round53 y \<le> hi * (1 + 1 / 2 ^ 53)" .
qed

lemma linspace_unit_point:
  assumes "i < 999"
  shows "0 \<le> linspace 0 1 1000 ! i" and "linspace 0 1 1000 ! i \<le> 1"
    and "\<bar>linspace 0 1 1000 ! i - of_nat i / 999\<bar> \<le> 1 / 2 ^ 51"
proof -
  define t :: rat where "t = of_nat i / 999"
  define y :: rat where "y = of_nat i * (577037790093517 / 576460752303423488)"
  define lo :: rat where "lo = 1 - 1 / 2 ^ 53"
  define hi :: rat where "hi = 1 + 1 / 2 ^ 53"
  have x: "linspace 0 1 1000 ! i = round53 (round53 y)"
    unfolding y_def by (rule linspace_unit_nth [OF assms])
  have t0: "0 \<le> t" by (simp add: t_def)
  from assms have "i \<le> 998" by simp
  then have "(of_nat i :: rat) \<le> 998" by (metis of_nat_le_iff of_nat_numeral)
  then have t1: "t \<le> 998 / 999" by (simp add: t_def)
  have y_eq: "y = t * (999 * (577037790093517 / 576460752303423488))" by (simp add: y_def t_def)
  have "lo \<le> 999 * (577037790093517 / 576460752303423488)" by (simp add: lo_def)
  then have y_lo: "t * lo \<le> y" unfolding y_eq using t0 by (rule mult_left_mono)
  have "999 * (577037790093517 / 576460752303423488) \<le> hi" by (simp add: hi_def)
  then have y_hi: "y \<le> t * hi" unfolding y_eq using t0 by (rule mult_left_mono)
  have lo0: "0 \<le> lo" by (simp add: lo_def)
  have tl: "0 \<le> t * lo" using t0 lo0 by (rule mult_nonneg_nonneg)
  note u = round53_twice_bounds [OF tl y_lo y_hi, folded lo_def hi_def]
  have tll: "0 \<le> t * lo * lo" using tl lo0 by (rule mult_nonneg_nonneg)
  note v = round53_twice_bounds [OF tll u, folded lo_def hi_def]
  have lo3: "1 - 1 / 2 ^ 51 \<le> lo * lo * lo" by (simp add: lo_def)
  have hi3: "hi * hi * hi \<le> 1 + 1 / 2 ^ 51" by (simp add: hi_def)
  have hi1: "998 / 999 * (hi * hi * hi) \<le> 1" by (simp add: hi_def)
  have low: "t * (1 - 1 / 2 ^ 51) \<le> round53 (round53 y)"
  proof -
    have "t * (1 - 1 / 2 ^ 51) \<le> t * (lo * lo * lo)" using lo3 t0 by (rule mult_left_mono)
    also have "\<dots> = t * lo * lo * lo" by (simp add: mult.assoc)
    also have "\<dots> \<le> round53 (round53 y)" by (rule v(1))
    finally show ?thesis .
  qed
  have high: "round53 (round53 y) \<le> t * (hi * hi * hi)"
    using v(2) by (simp add: mult.assoc)
  have "t * (hi * hi * hi) \<le> t * (1 + 1 / 2 ^ 51)" using hi3 t0 by (rule mult_left_mono)
  with high have high': "round53 (round53 y) \<le> t * (1 + 1 / 2 ^ 51)" by (rule order_trans)
  have "t * (hi * hi * hi) \<le> 998 / 999 * (hi * hi * hi)"
    using t1 by (rule mult_right_mono) (simp add: hi_def)
  with high hi1 show "linspace 0 1 1000 ! i \<le> 1" unfolding x by linarith
  have "0 \<le> y" using tl y_lo by (rule order_trans)
  then show "0 \<le> linspace 0 1 1000 ! i" unfolding x by (intro round53_nonneg)
  have "t * (1 / 2 ^ 51) \<le> 1 * (1 / 2 ^ 51)"
    using t1 by (intro mult_right_mono) simp_all
  then have small: "t * (1 / 2 ^ 51) \<le> 1 / 2 ^ 51" by simp
  have d1: "t * (1 + 1 / 2 ^ 51) = t + t * (1 / 2 ^ 51)" by (rule distrib_left [of t 1, simplified])
  have d2: "t * (1 - 1 / 2 ^ 51) = t - t * (1 / 2 ^ 51)" by (rule right_diff_distrib [of t 1, simplified])
  from low high' small have "round53 (round53 y) - t \<le> 1 / 2 ^ 51"
    and "- (round53 (round53 y) - t) \<le> 1 / 2 ^ 51"
    unfolding d1 d2 by linarith+
  then have "\<bar>round53 (round53 y) - t\<bar> \<le> 1 / 2 ^ 51" by (rule abs_leI)
  then show "\<bar>linspace 0 1 1000 ! i - of_nat i / 999\<bar> \<le> 1 / 2 ^ 51"
    by (simp only: x t_def)
qed

lemma linspace_unit:
  "length (linspace 0 1 1000) = 1000 \<and> hd (linspace 0 1 1000) = 0 \<and> last (linspace 0 1 1000) = 1
   \<and> (\<forall>x\<in>set (linspace 0 1 1000). 0 \<le> x \<and> x \<le> 1)
   \<and> (\<forall>i<1000. \<bar>linspace 0 1 1000 ! i - of_nat i / 999\<bar> \<le> 1 / 2 ^ 51)"
proof -
  have len: "length (linspace 0 1 1000) = 1000" by (simp add: linspace_length)
  then have ne: "linspace 0 1 1000 \<noteq> []" by auto
  have "hd (linspace 0 1 1000) = linspace 0 1 1000 ! 0" by (rule hd_conv_nth [OF ne])
  also have "\<dots> = 0" using linspace_unit_nth [of 0] by (simp add: round53_zero)
  finally have first: "hd (linspace 0 1 1000) = 0" .
  have final: "linspace 0 1 1000 ! 999 = 1"
    using last_conv_nth [OF ne] by (simp add: len linspace_last)
  have pt: "0 \<le> linspace 0 1 1000 ! i \<and> linspace 0 1 1000 ! i \<le> 1
      \<and> \<bar>linspace 0 1 1000 ! i - of_nat i / 999\<bar> \<le> 1 / 2 ^ 51" if "i < 1000" for i
  proof (cases "i < 999")
    case True
    then show ?thesis using linspace_unit_point [of i] by blast
  next
    case False
    with that have "i = 999" by simp
    then show ?thesis by (simp add: final)
  qed
  have "\<forall>x\<in>set (linspace 0 1 1000). 0 \<le> x \<and> x \<le> 1"
    using pt by (auto simp: in_set_conv_nth len)
  with len first pt show ?thesis by (simp add: linspace_last)
qed

lemma posterior_Some_variants:
  assumes "getitem d a = Inr ks" and "create_posterior_distribution_chart pdf (Some d) a = Inr (Some fig)"
  shows "set ks = {Str ''A'', Str ''B''}"
  using assms posterior_absent [OF assms(1), of pdf] by auto

lemma list_all2_map_eq: "list_all2 (\<lambda>x y. f y = x) xs ys \<Longrightarrow> map f ys = xs"
  by (induction xs ys rule: list_all2_induct) simp_all

lemma list_all2_in_set2: "list_all2 R xs ys \<Longrightarrow> y \<in> set ys \<Longrightarrow> \<exists>x\<in>set xs. R x y"
  by (induction xs ys rule: list_all2_induct) auto

lemma posterior_success:
  assumes wf: "wf_frame d" and ks: "getitem d a = Inr ks" and cv: "getitem d ''converted'' = Inr cv"
    and run: "create_posterior_distribution_chart pdf (Some d) a = Inr (Some fig)"
  shows "set ks = {Str ''A'', Str ''B''} \<and> length (unique ks) = 2 \<and> map variant fig = unique ks
     \<and> (\<forall>c\<in>set fig.
          param_a c = int (length (filter (\<lambda>p. fst p = variant c \<and> snd p = Bool True) (zip ks cv))) + 1
        \<and> param_b c = int (count_list ks (variant c))
             - int (length (filter (\<lambda>p. fst p = variant c \<and> snd p = Bool True) (zip ks cv))) + 1
        \<and> param_a c + param_b c = int (count_list ks (variant c)) + 2
        \<and> grid c = linspace 0 1 1000
        \<and> density c = map (\<lambda>x. pdf x (param_a c) (param_b c)) (grid c))"
proof -
  have set_ks: "set ks = {Str ''A'', Str ''B''}" by (rule posterior_Some_variants [OF ks run])
  then have two: "length (unique ks) = 2" by (rule two_labels_length) simp
  have len: "length ks = length cv"
    using getitem_length [OF wf ks] getitem_length [OF wf cv] by simp
  note all2 = posterior_Some [OF ks cv run]
  have "list_all2 (\<lambda>v c. variant c = v) (unique ks) fig"
    by (rule list_all2_mono [OF all2]) auto
  then have vars: "map variant fig = unique ks" by (rule list_all2_map_eq)
  have each: "param_a c = int (length (filter (\<lambda>p. fst p = variant c \<and> snd p = Bool True) (zip ks cv))) + 1
        \<and> param_b c = int (count_list ks (variant c))
             - int (length (filter (\<lambda>p. fst p = variant c \<and> snd p = Bool True) (zip ks cv))) + 1
        \<and> param_a c + param_b c = int (count_list ks (variant c)) + 2
        \<and> grid c = linspace 0 1 1000
        \<and> density c = map (\<lambda>x. pdf x (param_a c) (param_b c)) (grid c)"
    if "c \<in> set fig" for c
  proof -
    from list_all2_in_set2 [OF all2 that] obtain v ab where
      ab: "beta_params (group_of ks cv v) = Inr ab"
      and c: "c = \<lparr>variant = v, param_a = fst ab, param_b = snd ab, grid = linspace 0 1 1000,
                     density = map (\<lambda>t. pdf t (fst ab) (snd ab)) (linspace 0 1 1000)\<rparr>"
      by blast
    have succ: "length (filter (\<lambda>x. x = Bool True) (group_of ks cv v))
        = length (filter (\<lambda>p. fst p = v \<and> snd p = Bool True) (zip ks cv))"
      by (simp add: filter_group_of)
    have size: "length (group_of ks cv v) = count_list ks v"
      by (rule length_group_of [OF len])
    from beta_params_Inr [OF ab] show ?thesis
      by (simp add: c succ size)
  qed
  from set_ks two vars each show ?thesis by blast
qed

lemma ab_posterior:
  "create_posterior_distribution_chart (\<lambda>t a b. Fin (of_int a * t + of_int b))
     (Some (setitem ab_frame ''converted'' [Bool False, Bool True, Bool False, Bool True])) ''assignment''
   = Inr (Some ab_figure)"
  by (simp add: create_posterior_distribution_chart_def ab_figure_def columns_def setitem_def
      ab_frame_def getitem_def unique_def group_of_def beta_params_def Let_def)

text \<open>
  C7: \<open>create_posterior_distribution_chart\<close> returns \<open>None\<close> unless the assignment column
  has exactly the two distinct cells \<open>"A"\<close> and \<open>"B"\<close>. When it returns a figure, there is
  one curve per variant; its parameters are the number of rows of the variant with a true
  \<open>converted\<close> flag plus 1, and the number of the variant's other rows plus 1, so that they
  add up to the size of the group plus 2. The density of each curve is \<open>beta.pdf\<close> with
  the curve's own two parameters, taken at every point of its grid, and all curves share
  the grid \<open>linspace(0, 1, 1000)\<close>: 1000 floats from 0 to 1 inclusive, all within
  \<open>[0, 1]\<close>, point \<open>i\<close> being \<open>i / 999\<close> up to a rounding error of at most \<open>2^-51\<close>.
\<close>

theorem posterior_chart:
  "create_posterior_distribution_chart pdf None a = Inr None
   \<and> (a \<notin> set (columns d) \<or> ''converted'' \<notin> set (columns d)
        \<longrightarrow> create_posterior_distribution_chart pdf (Some d) a = Inr None)
   \<and> (getitem d a = Inr ks \<and> set ks \<noteq> {Str ''A'', Str ''B''}
        \<longrightarrow> create_posterior_distribution_chart pdf (Some d) a = Inr None)
   \<and> (wf_frame d \<and> getitem d a = Inr ks \<and> getitem d ''converted'' = Inr cv
        \<and> create_posterior_distribution_chart pdf (Some d) a = Inr (Some fig)
        \<longrightarrow> set ks = {Str ''A'', Str ''B''} \<and> length (unique ks) = 2 \<and> map variant fig = unique ks
          \<and> (\<forall>c\<in>set fig.
               param_a c = int (length (filter (\<lambda>p. fst p = variant c \<and> snd p = Bool True) (zip ks cv))) + 1
             \<and> param_b c = int (count_list ks (variant c))
                  - int (length (filter (\<lambda>p. fst p = variant c \<and> snd p = Bool True) (zip ks cv))) + 1
             \<and> param_a c + param_b c = int (count_list ks (variant c)) + 2
             \<and> grid c = linspace 0 1 1000
             \<and> density c = map (\<lambda>x. pdf x (param_a c) (param_b c)) (grid c)))
   \<and> length (linspace 0 1 1000) = 1000 \<and> hd (linspace 0 1 1000) = 0 \<and> last (linspace 0 1 1000) = 1
   \<and> (\<forall>x\<in>set (linspace 0 1 1000). 0 \<le> x \<and> x \<le> 1)
   \<and> (\<forall>i<1000. \<bar>linspace 0 1 1000 ! i - of_nat i / 999\<bar> \<le> 1 / 2 ^ 51)"
proof -
  have 1: "create_posterior_distribution_chart pdf None a = Inr None"
    by (simp add: create_posterior_distribution_chart_def)
  have 2: "a \<notin> set (columns d) \<or> ''converted'' \<notin> set (columns d)
        \<longrightarrow> create_posterior_distribution_chart pdf (Some d) a = Inr None"
    by (simp add: create_posterior_distribution_chart_def)
  from 1 2 posterior_absent [of d a ks pdf] posterior_success [of d a ks cv pdf fig] linspace_unit
  show ?thesis by blast
qed

theorem posterior_chart_witness:
  "create_posterior_distribution_chart (\<lambda>t a b. Fin (of_int a * t + of_int b)) (Some no_rows) ''assignment'' = Inr None
   \<and> create_posterior_distribution_chart (\<lambda>t a b. Fin (of_int a * t + of_int b))
        (Some (setitem ab_frame ''converted'' [Bool False, Bool True, Bool False, Bool True]))
        ''assignment'' = Inr (Some ab_figure)
   \<and> set [Str ''A'', Str ''A'', Str ''B'', Str ''B''] = {Str ''A'', Str ''B''}
   \<and> map variant ab_figure = unique [Str ''A'', Str ''A'', Str ''B'', Str ''B'']
   \<and> list_all (\<lambda>c. param_a c + param_b c
          = int (count_list [Str ''A'', Str ''A'', Str ''B'', Str ''B''] (variant c)) + 2
        \<and> grid c = linspace 0 1 1000
        \<and> density c = map (\<lambda>x. Fin (of_int (param_a c) * x + of_int (param_b c))) (grid c)) ab_figure"
proof -
  have "''assignment'' \<notin> set (columns no_rows)" by code_simp
  with posterior_chart [where a = "''assignment''" and d = no_rows and pdf = "\<lambda>t a b. Fin (of_int a * t + of_int b)"]
  have 1: "create_posterior_distribution_chart (\<lambda>t a b. Fin (of_int a * t + of_int b)) (Some no_rows) ''assignment'' = Inr None"
    by blast
  from posterior_chart [where a = "''assignment''" and pdf = "\<lambda>t a b. Fin (of_int a * t + of_int b)"
      and d = "setitem ab_frame ''converted'' [Bool False, Bool True, Bool False, Bool True]"
      and ks = "[Str ''A'', Str ''A'', Str ''B'', Str ''B'']"
      and cv = "[Bool False, Bool True, Bool False, Bool True]" and fig = ab_figure]
    ab_enriched_wf ab_enriched_columns ab_posterior
  have 2: "set [Str ''A'', Str ''A'', Str ''B'', Str ''B''] = {Str ''A'', Str ''B''}
     \<and> map variant ab_figure = unique [Str ''A'', Str ''A'', Str ''B'', Str ''B'']
     \<and> (\<forall>c\<in>set ab_figure. param_a c + param_b c
          = int (count_list [Str ''A'', Str ''A'', Str ''B'', Str ''B''] (variant c)) + 2
        \<and> grid c = linspace 0 1 1000
        \<and> density c = map (\<lambda>x. Fin (of_int (param_a c) * x + of_int (param_b c))) (grid c))"
    by blast
  from 1 2 ab_posterior show ?thesis unfolding list_all_iff by blast
qed

section \<open>Rows without a variant\<close>

lemma masked_map: "masked m (map f xs) = map f (masked m xs)"
  by (induction m arbitrary: xs) (auto simp: masked_def split: list.splits; case_tac xs; simp)+

lemma masked_self: "masked (map P xs) xs = filter P xs"
  by (induction xs) (auto simp: masked_def)

lemma length_filter_map_id: "length (filter id (map P xs)) = length (filter P xs)"
  by (induction xs) auto

lemma group_of_masked:
  assumes "length ks = length vs" and "P k"
  shows "group_of (masked (map P ks) ks) (masked (map P ks) vs) k = group_of ks vs k"
  using assms by (induction ks vs rule: list_induct2) (auto simp: masked_def group_of_def)

lemma columns_select_rows: "columns (select_rows m df) = columns df"
  by (simp add: columns_def select_rows_def comp_def)

lemma getitem_select_rows:
  "getitem (select_rows m df) c = (case getitem df c of Inl e \<Rightarrow> Inl e | Inr xs \<Rightarrow> Inr (masked m xs))"
proof -
  have "map_of (map (\<lambda>c. (fst c, masked m (snd c))) al) c = map_option (masked m) (map_of al c)" for al :: "(string \<times> 'a list) list"
    by (induction al) auto
  then show ?thesis
    by (simp add: getitem_def select_rows_def split: option.splits)
qed

lemma sum_count_group_keys_sub:
  assumes "set xs \<subseteq> set ks"
  shows "sum_list (map (count_list xs) (group_keys ks)) = length (filter (\<lambda>k. k \<noteq> Null) xs)"
proof -
  let ?nn = "filter (\<lambda>k. k \<noteq> Null) xs"
  have "sum_list (map (count_list xs) (group_keys ks)) = sum (count_list xs) (set ks - {Null})"
    by (simp add: sum_list_distinct_conv_sum_set distinct_group_keys set_group_keys)
  also have "\<dots> = sum (count_list ?nn) (set ks - {Null})"
    by (rule sum.cong) (auto simp: count_list_filter)
  also have "\<dots> = length ?nn"
    using assms by (intro sum_count_set) auto
  finally show ?thesis .
qed

lemma count_true_pairs:
  "length (filter id (map snd (filter (\<lambda>p. fst p = k) zs))) = count_list (map fst (filter snd zs)) k"
  by (induction zs) auto

lemma count_true_group_of:
  "length (filter id (group_of ks flags k)) = count_list (map fst (filter snd (zip ks flags))) k"
  unfolding group_of_def by (rule count_true_pairs)

lemma length_filter_zip_map:
  "length (filter (\<lambda>p. Q (fst p) \<and> snd p) (zip ks (map f vs)))
     = length (filter (\<lambda>p. Q (fst p) \<and> f (snd p)) (zip ks vs))"
proof (induction ks arbitrary: vs)
  case Nil
  then show ?case by simp
next
  case (Cons k ks)
  then show ?case by (cases vs) auto
qed

lemma length_filter_fst:
  "length (filter Q (map fst (filter snd zs))) = length (filter (\<lambda>p. Q (fst p) \<and> snd p) zs)"
  by (induction zs) auto

lemma group_keys_masked: "group_keys (masked (map (\<lambda>k. k \<noteq> Null) ks) ks) = group_keys ks"
  by (simp add: masked_self group_keys_def)

lemma conversion_table_masked:
  assumes d: "getitem d a = Inr ks"
    and ds: "getitem ds a = Inr (masked (map (\<lambda>k. k \<noteq> Null) ks) ks)"
    and len: "length ks = length flags"
  shows "conversion_table ds a (masked (map (\<lambda>k. k \<noteq> Null) ks) flags) = conversion_table d a flags"
proof -
  let ?m = "map (\<lambda>k. k \<noteq> Null) ks"
  have go: "group_of (masked ?m ks) (masked ?m flags) k = group_of ks flags k"
    if "k \<in> set (group_keys ks)" for k
    using that by (intro group_of_masked [OF len]) (simp add: set_group_keys)
  show ?thesis
    unfolding conversion_table_eq [OF d] conversion_table_eq [OF ds] group_keys_masked
    by (simp add: go cong: map_cong del: f_div.simps)
qed

lemma conversion_totals:
  assumes wf: "wf_frame df"
    and run: "calculate_conversion_rates df e1 e2 a = (df', Inr (Some t, l))"
    and gk: "getitem df' a = Inr ks" and ev2: "getitem df e2 = Inr ev2"
  shows "length ks = nrows df" and "length ev2 = nrows df"
    and "conversion_table df' a (map (\<lambda>v. v \<noteq> Null) ev2) = Inr t"
    and "lift_of t a = Inr l"
    and "df' = setitem df ''converted'' (map (\<lambda>v. Bool (v \<noteq> Null)) ev2)"
    and "a \<noteq> ''converted'' \<longrightarrow> getitem df a = Inr ks"
    and "a = ''converted'' \<longrightarrow> ks = map (\<lambda>v. Bool (v \<noteq> Null)) ev2"
proof -
  from calculate_conversion_rates_Some [OF run] ev2 show
    df': "df' = setitem df ''converted'' (map (\<lambda>v. Bool (v \<noteq> Null)) ev2)"
    and "conversion_table df' a (map (\<lambda>v. v \<noteq> Null) ev2) = Inr t"
    and "lift_of t a = Inr l"
    by auto
  show l2: "length ev2 = nrows df" by (rule getitem_length [OF wf ev2])
  from gk show orig: "a \<noteq> ''converted'' \<longrightarrow> getitem df a = Inr ks"
    by (auto simp: df' getitem_setitem split: if_splits)
  from gk show conv: "a = ''converted'' \<longrightarrow> ks = map (\<lambda>v. Bool (v \<noteq> Null)) ev2"
    by (auto simp: df' getitem_setitem split: if_splits)
  show "length ks = nrows df"
  proof (cases "a = ''converted''")
    case True
    with conv l2 show ?thesis by simp
  next
    case False
    with orig getitem_length [OF wf] show ?thesis by blast
  qed
qed

lemma excluded_counts:
  assumes wf: "wf_frame df"
    and run: "calculate_conversion_rates df e1 e2 a = (df', Inr (Some t, l))"
    and gk: "getitem df' a = Inr ks" and ev2: "getitem df e2 = Inr ev2"
  shows "\<exists>ns ss. getitem t ''count'' = Inr (map Count ns) \<and> getitem t ''sum'' = Inr (map Count ss)
      \<and> sum_list ns = length (filter (\<lambda>k. k \<noteq> Null) ks)
      \<and> sum_list ss = length (filter (\<lambda>p. fst p \<noteq> Null \<and> snd p \<noteq> Null) (zip ks ev2))
      \<and> (Null \<in> set ks \<longrightarrow> sum_list ns < nrows df)"
proof -
  note tot = conversion_totals [OF wf run gk ev2]
  let ?flags = "map (\<lambda>v. v \<noteq> Null) ev2"
  let ?idx = "group_keys ks"
  let ?c = "\<lambda>k. length (group_of ks ?flags k)"
  let ?s = "\<lambda>k. length (filter id (group_of ks ?flags k))"
  note cols = conversion_table_columns [OF gk tot(3)]
  have len: "length ks = length ?flags" by (simp add: tot(1,2))
  have "map ?c ?idx = map (count_list ks) ?idx"
    by (simp add: length_group_of [OF len])
  then have ns: "sum_list (map ?c ?idx) = length (filter (\<lambda>k. k \<noteq> Null) ks)"
    by (simp only: sum_count_group_keys)
  have sub: "set (map fst (filter snd (zip ks ?flags))) \<subseteq> set ks"
    by (auto dest: set_zip_leftD)
  have "map ?s ?idx = map (count_list (map fst (filter snd (zip ks ?flags)))) ?idx"
    by (simp add: count_true_group_of)
  then have "sum_list (map ?s ?idx)
      = length (filter (\<lambda>k. k \<noteq> Null) (map fst (filter snd (zip ks ?flags))))"
    by (simp only: sum_count_group_keys_sub [OF sub])
  also have "\<dots> = length (filter (\<lambda>p. fst p \<noteq> Null \<and> snd p) (zip ks ?flags))"
    by (rule length_filter_fst)
  also have "\<dots> = length (filter (\<lambda>p. fst p \<noteq> Null \<and> snd p \<noteq> Null) (zip ks ev2))"
    by (rule length_filter_zip_map)
  finally have ss: "sum_list (map ?s ?idx)
      = length (filter (\<lambda>p. fst p \<noteq> Null \<and> snd p \<noteq> Null) (zip ks ev2))" .
  have less: "sum_list (map ?c ?idx) < nrows df" if "Null \<in> set ks"
    using length_filter_less [OF that, of "\<lambda>k. k \<noteq> Null"] by (simp add: ns tot(1))
  have "getitem t ''count'' = Inr (map Count (map ?c ?idx))"
    by (simp add: cols(4) comp_def)
  moreover have "getitem t ''sum'' = Inr (map Count (map ?s ?idx))"
    by (simp add: cols(5) comp_def)
  ultimately show ?thesis using ns ss less by blast
qed

lemma excluded_rows_no_effect:
  assumes wf: "wf_frame df"
    and run: "calculate_conversion_rates df e1 e2 a = (df', Inr (Some t, l))"
    and gk: "getitem df' a = Inr ks" and ev2: "getitem df e2 = Inr ev2"
    and some: "\<exists>k\<in>set ks. k \<noteq> Null"
  shows "snd (calculate_conversion_rates (select_rows (map (\<lambda>k. k \<noteq> Null) ks) df) e1 e2 a)
     = Inr (Some t, l)"
proof -
  note tot = conversion_totals [OF wf run gk ev2]
  let ?m = "map (\<lambda>k. k \<noteq> Null) ks"
  let ?ds = "select_rows ?m df"
  let ?flags = "map (\<lambda>v. v \<noteq> Null) ev2"
  from calculate_conversion_rates_Some [OF run]
  have g: "\<not> df_empty df" "e1 \<in> set (columns df)" "e2 \<in> set (columns df)" "a \<in> set (columns df)"
    by blast+
  from some have "filter (\<lambda>k. k \<noteq> Null) ks \<noteq> []" by (auto simp: filter_empty_conv)
  then have "0 < length (filter id ?m)" by (simp add: length_filter_map_id)
  moreover from g(1) have "cols df \<noteq> []" by (simp add: df_empty_def)
  ultimately have ne: "\<not> df_empty ?ds" by (simp add: df_empty_def select_rows_def)
  have evs: "getitem ?ds e2 = Inr (masked ?m ev2)" by (simp add: getitem_select_rows ev2)
  let ?ds' = "setitem ?ds ''converted'' (map (\<lambda>v. Bool (v \<noteq> Null)) (masked ?m ev2))"
  have keys: "getitem ?ds' a = Inr (masked ?m ks)"
  proof (cases "a = ''converted''")
    case True
    with tot(7) have "ks = map (\<lambda>v. Bool (v \<noteq> Null)) ev2" by simp
    then have "masked ?m ks = map (\<lambda>v. Bool (v \<noteq> Null)) (masked ?m ev2)"
      using masked_map [of ?m "\<lambda>v. Bool (v \<noteq> Null)" ev2] by simp
    with True show ?thesis by (simp add: getitem_setitem)
  next
    case False
    with tot(6) show ?thesis by (simp add: getitem_setitem getitem_select_rows)
  qed
  have "map (\<lambda>v. v \<noteq> Null) (masked ?m ev2) = masked ?m ?flags" by (simp add: masked_map)
  moreover have "length ks = length ?flags" by (simp add: tot(1,2))
  ultimately have "conversion_table ?ds' a (map (\<lambda>v. v \<noteq> Null) (masked ?m ev2)) = Inr t"
    using conversion_table_masked [OF gk keys, of ?flags] tot(3) by simp
  then show ?thesis
    using g by (simp add: calculate_conversion_rates_run [OF ne _ _ _ evs] columns_select_rows tot(4))
qed

lemma partly_assigned_wf: "wf_frame partly_assigned_frame"
  by code_simp

lemma partly_assigned_guard:
  "\<not> df_empty partly_assigned_frame" "''event1'' \<in> set (columns partly_assigned_frame)"
  "getitem partly_assigned_frame ''event2'' = Inr [Str ''x'', Str ''y'', Null, Null]"
  "getitem partly_assigned_frame ''assignment'' = Inr [Str ''A'', Null, Str ''B'', Str ''A'']"
  by code_simp+

lemma partly_assigned_run:
  "calculate_conversion_rates partly_assigned_frame ''event1'' ''event2'' ''assignment''
   = (setitem partly_assigned_frame ''converted'' [Bool True, Bool True, Bool False, Bool False],
      Inr (Some partly_assigned_table, Some (Fin (- 1))))"
  by code_simp

text \<open>
  C10, as the claim is stated, fails when the assignment column is the column
  \<open>converted\<close>: line 34 replaces its cells by the derived flags before the rows are
  grouped, so a row whose cell was null is counted in a group, and the counts add up to the
  number of rows.
\<close>

theorem null_assignment_row_grouped:
  "getitem converted_arm_frame ''converted'' = Inr [Null, Str ''x'']
   \<and> nrows converted_arm_frame = 2
   \<and> snd (calculate_conversion_rates converted_arm_frame ''event1'' ''event2'' ''converted'')
       = Inr (Some converted_arm_table, None)
   \<and> getitem converted_arm_table ''count'' = Inr (map Count [1, 1])
   \<and> sum_list [1, 1 :: nat] = nrows converted_arm_frame"
  by code_simp

text \<open>
  C10, amended: for every non-empty dataset in which the three named columns exist, and whose
  assignment column is named none of \<open>converted\<close>, \<open>count\<close> and \<open>sum\<close>,
  \<open>calculate_conversion_rates\<close> returns a table whose counts add up to the number of
  rows with a non-null assignment cell, and whose sums add up to the number of such rows
  with a non-null second event; so with a null assignment cell the counts add up to less
  than the number of rows. Unless every assignment cell is null, deleting the rows with a
  null assignment cell from the dataset leaves the table and the lift as they are.
\<close>

theorem null_assignment_rows_excluded:
  assumes "wf_frame df" and "\<not> df_empty df" and "e1 \<in> set (columns df)"
    and "getitem df e2 = Inr ev2" and "getitem df a = Inr ks"
    and "a \<noteq> ''converted''" and "a \<noteq> ''count''" and "a \<noteq> ''sum''"
  shows "\<exists>df' t l ns ss. calculate_conversion_rates df e1 e2 a = (df', Inr (Some t, l))
      \<and> getitem t ''count'' = Inr (map Count ns) \<and> getitem t ''sum'' = Inr (map Count ss)
      \<and> sum_list ns = length (filter (\<lambda>k. k \<noteq> Null) ks)
      \<and> sum_list ss = length (filter (\<lambda>p. fst p \<noteq> Null \<and> snd p \<noteq> Null) (zip ks ev2))
      \<and> (Null \<in> set ks \<longrightarrow> sum_list ns < nrows df)
      \<and> ((\<exists>k\<in>set ks. k \<noteq> Null) \<longrightarrow>
           snd (calculate_conversion_rates (select_rows (map (\<lambda>k. k \<noteq> Null) ks) df) e1 e2 a)
             = Inr (Some t, l))"
proof -
  have a: "a \<in> set (columns df)" by (rule getitem_Inr_columns [OF assms(5)])
  from calculate_conversion_rates_returns [OF assms(2,3,4) a assms(7,8)] obtain t l where
    run: "calculate_conversion_rates df e1 e2 a
      = (setitem df ''converted'' (map (\<lambda>v. Bool (v \<noteq> Null)) ev2), Inr (Some t, l))"
    by blast
  have gk: "getitem (setitem df ''converted'' (map (\<lambda>v. Bool (v \<noteq> Null)) ev2)) a = Inr ks"
    using assms(5,6) by (simp add: getitem_setitem)
  from excluded_counts [OF assms(1) run gk assms(4)] obtain ns ss where
    "getitem t ''count'' = Inr (map Count ns)" "getitem t ''sum'' = Inr (map Count ss)"
    "sum_list ns = length (filter (\<lambda>k. k \<noteq> Null) ks)"
    "sum_list ss = length (filter (\<lambda>p. fst p \<noteq> Null \<and> snd p \<noteq> Null) (zip ks ev2))"
    "Null \<in> set ks \<longrightarrow> sum_list ns < nrows df"
    by blast
  moreover have "(\<exists>k\<in>set ks. k \<noteq> Null) \<longrightarrow>
      snd (calculate_conversion_rates (select_rows (map (\<lambda>k. k \<noteq> Null) ks) df) e1 e2 a)
        = Inr (Some t, l)"
    using excluded_rows_no_effect [OF assms(1) run gk assms(4)] by blast
  ultimately show ?thesis using run by blast
qed

theorem null_assignment_rows_excluded_witness:
  "\<exists>df' t l ns ss.
      calculate_conversion_rates partly_assigned_frame ''event1'' ''event2'' ''assignment''
        = (df', Inr (Some t, l))
      \<and> getitem t ''count'' = Inr (map Count ns) \<and> getitem t ''sum'' = Inr (map Count ss)
      \<and> sum_list ns = 3 \<and> sum_list ss = 1 \<and> sum_list ns < nrows partly_assigned_frame
      \<and> snd (calculate_conversion_rates
           (select_rows [True, False, True, True] partly_assigned_frame)
           ''event1'' ''event2'' ''assignment'') = Inr (Some t, l)"
  using null_assignment_rows_excluded [OF partly_assigned_wf partly_assigned_guard]
  by (simp add: numeral_3_eq_3)

end
